theory Spec2Isabelle
  imports Main "HOL-Library.AList" "HOL-Library.Sublist"
begin

section \<open>JavaScript values\<close>

text \<open>
  The values the two source files handle. Numbers are modelled by the integers and a
  separate \<open>JNaN\<close>: \<open>JNum i\<close> stands for the number \<open>i\<close> when \<open>i\<close> is an integer that a
  double holds exactly and prints in full (up to \<open>2 ^ 53\<close> in absolute value);
  fractions, larger numbers and infinities are outside the model. A function is
  modelled by its source text (what \<open>toString()\<close> returns), a regular expression by
  its \<open>toString()\<close> text, and a date by the results of the three methods the code or
  the host can reach on it: \<open>getTime()\<close>, \<open>toString()\<close> and \<open>toJSON()\<close>. An object
  carries the source text of its constructor and its own enumerable properties in
  enumeration order, with distinct keys; it inherits the properties of
  \<open>Object.prototype\<close>. The inherited properties of the other values (the methods of
  arrays, strings, functions, dates and regular expressions) are not modelled beyond
  \<open>constructor\<close>, \<open>toString\<close> and \<open>length\<close>.
\<close>

datatype jsval =
    JUndefined
  | JNull
  | JBool bool
  | JNum int
  | JNaN
  | JStr string
  | JFun string
  | JDate int string string
  | JRegExp string
  | JArr "jsval list"
  | JObj string "(string \<times> jsval) list"

text \<open>
  What a \<open>catch\<close> clause receives: \<open>Thrown m\<close> is an error object whose \<open>message\<close> is
  \<open>m\<close>, which is what the failures of the script itself and of the built-in functions
  are; \<open>ThrownValue v\<close> is any other value \<open>v\<close> that a \<open>throw\<close> statement of an evaluated
  text or of a called function hands over.
\<close>

datatype error = Thrown string | ThrownValue jsval

definition digitChar :: "nat \<Rightarrow> char" where
  "digitChar d = ''0123456789'' ! d"

fun showNat :: "nat \<Rightarrow> string" where
  "showNat n = (if n < 10 then [digitChar n] else showNat (n div 10) @ [digitChar (n mod 10)])"

declare showNat.simps [simp del]

definition showInt :: "int \<Rightarrow> string" where
  "showInt i = (if i < 0 then CHR ''-'' # showNat (nat (- i)) else showNat (nat i))"

fun join :: "string \<Rightarrow> string list \<Rightarrow> string" where
  "join sep [] = []"
| "join sep [x] = x"
| "join sep (x # y # ys) = x @ sep @ join sep (y # ys)"

text \<open>\<open>String(v)\<close>: the string form of a value, with the default \<open>toString\<close> of objects
  and \<open>Array.prototype.join\<close> for arrays (null and undefined elements print empty).
  Objects that bring a \<open>toString\<close> or \<open>valueOf\<close> of their own are not modelled.\<close>

fun toStr :: "jsval \<Rightarrow> string" where
  "toStr JUndefined = ''undefined''"
| "toStr JNull = ''null''"
| "toStr (JBool b) = (if b then ''true'' else ''false'')"
| "toStr (JNum i) = showInt i"
| "toStr JNaN = ''NaN''"
| "toStr (JStr s) = s"
| "toStr (JFun src) = src"
| "toStr (JDate ms str jsn) = str"
| "toStr (JRegExp src) = src"
| "toStr (JArr xs) =
     join '','' (map (\<lambda>x. if x = JNull \<or> x = JUndefined then [] else toStr x) xs)"
| "toStr (JObj c kvs) = ''[object Object]''"


fun truthy :: "jsval \<Rightarrow> bool" where
  "truthy JUndefined = False"
| "truthy JNull = False"
| "truthy (JBool b) = b"
| "truthy (JNum i) = (i \<noteq> 0)"
| "truthy JNaN = False"
| "truthy (JStr s) = (s \<noteq> [])"
| "truthy v = True"

text \<open>\<open>a === b\<close>. Objects are equal only by identity, which the value model does not
  carry: the code applies \<open>===\<close> to an object only against \<open>null\<close> or in a branch
  reached with a primitive on the left.\<close>

fun strictEq :: "jsval \<Rightarrow> jsval \<Rightarrow> bool" where
  "strictEq JUndefined b = (b = JUndefined)"
| "strictEq JNull b = (b = JNull)"
| "strictEq (JBool x) b = (b = JBool x)"
| "strictEq (JNum i) b = (b = JNum i)"
| "strictEq JNaN b = False"
| "strictEq (JStr s) b = (b = JStr s)"
| "strictEq a b = False"

definition objectSrc :: string where
  "objectSrc = ''function Object() { [native code] }''"

definition arraySrc :: string where
  "arraySrc = ''function Array() { [native code] }''"

definition nativeSrc :: "string \<Rightarrow> string" where
  "nativeSrc n = ''function '' @ n @ ''() { [native code] }''"

text \<open>\<open>v.constructor\<close>, \<open>v.toString()\<close> and \<open>v.getTime()\<close>: reading a property of
  \<open>undefined\<close> or \<open>null\<close> throws, and so does calling a method the value lacks.\<close>

fun constructorOf :: "jsval \<Rightarrow> error + jsval" where
  "constructorOf JUndefined =
     Inl (Thrown ''Cannot read properties of undefined (reading 'constructor')'')"
| "constructorOf JNull =
     Inl (Thrown ''Cannot read properties of null (reading 'constructor')'')"
| "constructorOf (JBool b) = Inr (JFun (nativeSrc ''Boolean''))"
| "constructorOf (JNum i) = Inr (JFun (nativeSrc ''Number''))"
| "constructorOf JNaN = Inr (JFun (nativeSrc ''Number''))"
| "constructorOf (JStr s) = Inr (JFun (nativeSrc ''String''))"
| "constructorOf (JFun src) = Inr (JFun (nativeSrc ''Function''))"
| "constructorOf (JDate ms str jsn) = Inr (JFun (nativeSrc ''Date''))"
| "constructorOf (JRegExp src) = Inr (JFun (nativeSrc ''RegExp''))"
| "constructorOf (JArr xs) = Inr (JFun arraySrc)"
| "constructorOf (JObj c kvs) = Inr (JFun c)"

fun toStringMethod :: "jsval \<Rightarrow> error + string" where
  "toStringMethod JUndefined =
     Inl (Thrown ''Cannot read properties of undefined (reading 'toString')'')"
| "toStringMethod JNull =
     Inl (Thrown ''Cannot read properties of null (reading 'toString')'')"
| "toStringMethod v = Inr (toStr v)"

fun getTime :: "jsval \<Rightarrow> error + int" where
  "getTime (JDate ms str jsn) = Inr ms"
| "getTime JUndefined =
     Inl (Thrown ''Cannot read properties of undefined (reading 'getTime')'')"
| "getTime JNull =
     Inl (Thrown ''Cannot read properties of null (reading 'getTime')'')"
| "getTime v = Inl (Thrown ''value2.getTime is not a function'')"

text \<open>\<open>Object.keys(v)\<close> and \<open>v[key]\<close>. A key that an object does not have itself is
  read from \<open>Object.prototype\<close>: \<open>constructor\<close>, the prototype object under \<open>__proto__\<close>
  (an object without enumerable properties), and the native methods.\<close>

definition objectProto :: "string list" where
  "objectProto = [''__defineGetter__'', ''__defineSetter__'', ''hasOwnProperty'',
                  ''__lookupGetter__'', ''__lookupSetter__'', ''isPrototypeOf'',
                  ''propertyIsEnumerable'', ''toString'', ''valueOf'', ''toLocaleString'']"

definition inherited :: "string \<Rightarrow> string \<Rightarrow> jsval" where
  "inherited c k =
     (if k = ''constructor'' then JFun c
      else if k = ''__proto__'' then JObj c []
      else if k \<in> set objectProto then JFun (nativeSrc k)
      else JUndefined)"

fun ownKeys :: "jsval \<Rightarrow> string list" where
  "ownKeys (JArr xs) = map showNat [0..<length xs]"
| "ownKeys (JObj c kvs) = map fst kvs"
| "ownKeys (JStr s) = map showNat [0..<length s]"
| "ownKeys v = []"

definition indexOfKey :: "string \<Rightarrow> nat \<Rightarrow> nat option" where
  "indexOfKey k n = List.find (\<lambda>i. showNat i = k) [0..<n]"

fun getProp :: "jsval \<Rightarrow> string \<Rightarrow> jsval" where
  "getProp (JObj c kvs) k = (case map_of kvs k of Some v \<Rightarrow> v | None \<Rightarrow> inherited c k)"
| "getProp (JArr xs) k =
     (if k = ''length'' then JNum (int (length xs))
      else case indexOfKey k (length xs) of Some i \<Rightarrow> xs ! i | None \<Rightarrow> JUndefined)"
| "getProp (JStr s) k =
     (if k = ''length'' then JNum (int (length s))
      else case indexOfKey k (length s) of Some i \<Rightarrow> JStr [s ! i] | None \<Rightarrow> JUndefined)"
| "getProp v k = JUndefined"

section \<open>operators.js\<close>

text \<open>\<open>and\<close>, \<open>or\<close>, \<open>not\<close>: the first two compare every argument with \<open>true\<close> itself.\<close>

definition and_op :: "jsval list \<Rightarrow> bool" where
  "and_op args = list_all (\<lambda>arg. arg = JBool True) args"

definition or_op :: "jsval list \<Rightarrow> bool" where
  "or_op args = list_ex (\<lambda>arg. arg = JBool True) args"

definition not_op :: "jsval \<Rightarrow> bool" where
  "not_op arg = (\<not> truthy arg)"

text \<open>
  \<open>is(value1, value2)\<close>. The switch is on \<open>typeof value1\<close>; the object branch switches
  again on \<open>value1.constructor\<close>, and its default case walks \<open>Object.keys(value1)\<close> with
  \<open>every\<close>, which stops at the first \<open>false\<close> and lets a throw escape. \<open>is_props\<close> is that
  walk for an object (\<open>value1[key]\<close> is the value listed with the key) and \<open>is_items\<close>
  for an array, whose keys are the indices from \<open>i\<close> on.
\<close>

fun is_op :: "jsval \<Rightarrow> jsval \<Rightarrow> error + bool"
  and is_props :: "(string \<times> jsval) list \<Rightarrow> jsval \<Rightarrow> error + bool"
  and is_items :: "nat \<Rightarrow> jsval list \<Rightarrow> jsval \<Rightarrow> error + bool"
where
  "is_op (JFun src) value2 =
     (case toStringMethod value2 of Inl e \<Rightarrow> Inl e | Inr t \<Rightarrow> Inr (src = t))"
| "is_op JNull value2 = Inr (value2 = JNull)"
| "is_op (JDate ms str jsn) value2 =
     (if or_op [JBool False, JBool (value2 = JNull)] then Inr False
      else case getTime value2 of Inl e \<Rightarrow> Inl e | Inr ms2 \<Rightarrow> Inr (ms = ms2))"
| "is_op (JRegExp src) value2 =
     (if or_op [JBool False, JBool (value2 = JNull)] then Inr False
      else case toStringMethod value2 of Inl e \<Rightarrow> Inl e | Inr t \<Rightarrow> Inr (src = t))"
| "is_op (JObj c kvs) value2 =
     (if or_op [JBool False, JBool (value2 = JNull)] then Inr False
      else case constructorOf value2 of
          Inl e \<Rightarrow> Inl e
        | Inr c2 \<Rightarrow>
            (case toStringMethod c2 of
               Inl e \<Rightarrow> Inl e
             | Inr t \<Rightarrow>
                 if not_op (JBool (c = t)) then Inr False
                 else if not_op (JBool (length (map fst kvs) = length (ownKeys value2)))
                   then Inr False
                 else is_props kvs value2))"
| "is_op (JArr xs) value2 =
     (if or_op [JBool False, JBool (value2 = JNull)] then Inr False
      else case constructorOf value2 of
          Inl e \<Rightarrow> Inl e
        | Inr c2 \<Rightarrow>
            (case toStringMethod c2 of
               Inl e \<Rightarrow> Inl e
             | Inr t \<Rightarrow>
                 if not_op (JBool (arraySrc = t)) then Inr False
                 else if not_op (JBool (length xs = length (ownKeys value2)))
                   then Inr False
                 else is_items 0 xs value2))"
| "is_op value1 value2 = Inr (strictEq value1 value2)"
| "is_props [] value2 = Inr True"
| "is_props ((key, x) # kvs) value2 =
     (case is_op x (getProp value2 key) of
        Inl e \<Rightarrow> Inl e
      | Inr b \<Rightarrow> if b then is_props kvs value2 else Inr False)"
| "is_items i [] value2 = Inr True"
| "is_items i (x # xs) value2 =
     (case is_op x (getProp value2 (showNat i)) of
        Inl e \<Rightarrow> Inl e
      | Inr b \<Rightarrow> if b then is_items (Suc i) xs value2 else Inr False)"

section \<open>Strings\<close>

text \<open>
  \<open>GetSubstitution\<close> for a string pattern, which has no captures: in the replacement
  text \<open>$$\<close> stands for a dollar sign, \<open>$&\<close> for the matched text, \<open>$`\<close> for the text
  before the match and \<open>$'\<close> for the text after it; every other character, and a
  dollar sign followed by anything else, stands for itself.
\<close>

fun getSubstitution :: "string \<Rightarrow> string \<Rightarrow> nat \<Rightarrow> string \<Rightarrow> string" where
  "getSubstitution matched str position [] = []"
| "getSubstitution matched str position [c] = [c]"
| "getSubstitution matched str position (c # d # rest) =
     (if c = CHR ''$'' \<and> d = CHR ''$'' then CHR ''$'' # getSubstitution matched str position rest
      else if c = CHR ''$'' \<and> d = CHR ''&'' then matched @ getSubstitution matched str position rest
      else if c = CHR ''$'' \<and> d = CHR 0x60 then take position str @ getSubstitution matched str position rest
      else if c = CHR ''$'' \<and> d = CHR 0x27
        then drop (position + length matched) str @ getSubstitution matched str position rest
      else c # getSubstitution matched str position (d # rest))"

text \<open>
  \<open>str.replaceAll(pat, rep)\<close> with a string replacement: the occurrences of \<open>pat\<close> are
  found from the left, each search starting after the previous occurrence.
  \<open>replaceScan\<close> runs over the rest of the string from \<open>position\<close>. Every search string
  of the code starts with a literal, so the empty pattern does not arise; the model
  leaves the string unchanged for it.
\<close>

function replaceScan :: "string \<Rightarrow> string \<Rightarrow> string \<Rightarrow> nat \<Rightarrow> string \<Rightarrow> string" where
  "replaceScan pat rep str position rest =
     (if rest = [] \<or> pat = [] then rest
      else if take (length pat) rest = pat
        then getSubstitution pat str position rep
             @ replaceScan pat rep str (position + length pat) (drop (length pat) rest)
      else hd rest # replaceScan pat rep str (Suc position) (tl rest))"
  by pat_completeness auto
termination
  by (relation "measure (\<lambda>(pat, rep, str, position, rest). length rest)") auto

declare replaceScan.simps [simp del]

definition replaceAll :: "string \<Rightarrow> string \<Rightarrow> string \<Rightarrow> string" where
  "replaceAll pat rep str = replaceScan pat rep str 0 str"

text \<open>
  \<open>str.replaceAll(pat, f)\<close> with a function: \<open>f\<close> is called with the matched text, its
  position and the whole string, and the string form of what it returns is spliced in;
  a throw of \<open>f\<close> escapes.
\<close>

function replaceScanFn ::
  "(string \<Rightarrow> nat \<Rightarrow> string \<Rightarrow> error + jsval) \<Rightarrow> string \<Rightarrow> string \<Rightarrow> nat \<Rightarrow> string
    \<Rightarrow> error + string" where
  "replaceScanFn f pat str position rest =
     (if rest = [] \<or> pat = [] then Inr rest
      else if take (length pat) rest = pat
        then (case f pat position str of
                Inl e \<Rightarrow> Inl e
              | Inr v \<Rightarrow>
                  (case replaceScanFn f pat str (position + length pat) (drop (length pat) rest) of
                     Inl e \<Rightarrow> Inl e
                   | Inr t \<Rightarrow> Inr (toStr v @ t)))
      else (case replaceScanFn f pat str (Suc position) (tl rest) of
              Inl e \<Rightarrow> Inl e
            | Inr t \<Rightarrow> Inr (hd rest # t)))"
  by pat_completeness auto
termination
  by (relation "measure (\<lambda>(f, pat, str, position, rest). length rest)") auto

declare replaceScanFn.simps [simp del]

definition isSpace :: "char \<Rightarrow> bool" where
  "isSpace c = (c \<in> {CHR 0x20, CHR 0x09, CHR 0x0A, CHR 0x0B, CHR 0x0C, CHR 0x0D})"

definition trim :: "string \<Rightarrow> string" where
  "trim s = rev (dropWhile isSpace (rev (dropWhile isSpace s)))"

section \<open>The document tree and the host\<close>

text \<open>
  A node is a text node or an element with its \<open>localName\<close>, its attributes in order,
  its inline style properties (\<open>ele.style\<close>, kept apart from the attribute list) and its
  child nodes. Comments and other node kinds are not modelled.
\<close>

datatype node =
    TextNode string
  | Element string "(string \<times> string) list" "(string \<times> string) list" "node list"

fun localName :: "node \<Rightarrow> string" where
  "localName (Element t a s ks) = t"
| "localName (TextNode x) = []"

fun childNodes :: "node \<Rightarrow> node list" where
  "childNodes (Element t a s ks) = ks"
| "childNodes (TextNode x) = []"

fun setChildNodes :: "node \<Rightarrow> node list \<Rightarrow> node" where
  "setChildNodes (Element t a s ks) ks' = Element t a s ks'"
| "setChildNodes (TextNode x) ks' = TextNode x"

type_synonym scope = "(string \<times> jsval) list"

text \<open>
  What the code takes from its environment: \<open>eval\<close> of an expression text in a scope
  (the variables the expression can see, innermost first, ending with the properties
  of \<open>window\<close>), the call of a function value on arguments, the HTML parser behind the
  \<open>innerHTML\<close> setter and the serializer behind the \<open>innerHTML\<close> and \<open>outerHTML\<close> getters.
  These four are taken as pure: an evaluated expression or a called function returns a
  value or throws, and changes neither the document nor \<open>window\<close>. Variables that hold
  DOM nodes (\<open>ele\<close>, \<open>child\<close>, \<open>text\<close>) are not part of a scope. The fifth, \<open>assignJs\<close>, is
  \<open>eval\<close> of an assignment text inside a method of an object: it is given the object
  that \<open>this\<close> stands for and returns the object as the assignment leaves it.
\<close>

record host =
  evalJs :: "scope \<Rightarrow> string \<Rightarrow> error + jsval"
  callJs :: "scope \<Rightarrow> string \<Rightarrow> jsval list \<Rightarrow> error + jsval"
  parseHtml :: "string \<Rightarrow> node list"
  serializeHtml :: "node list \<Rightarrow> string"
  assignJs :: "scope \<Rightarrow> jsval \<Rightarrow> string \<Rightarrow> error + jsval"

text \<open>
  The global state of htmlLogic.js: the properties of \<open>window\<close> that bindings, loops and
  undeclared assignments create (\<open>window[name]\<close>, \<open>result\<close>, \<open>tempName\<close>), and the three
  snapshot lists filled once by the \<open>onload\<close> handler. A binding name is assumed not to
  collide with a global of the script itself.
\<close>

record world =
  window :: scope
  allDataElements :: "node list"
  getTempsElements :: "node list"
  getTempsElementsUI :: "node list"

definition setGlobal :: "string \<Rightarrow> jsval \<Rightarrow> world \<Rightarrow> world" where
  "setGlobal k v w = w\<lparr>window := AList.update k v (window w)\<rparr>"

text \<open>\<open>ele.getAttribute(n)\<close> is \<open>None\<close> for JavaScript's \<open>null\<close>; \<open>attrTruthy\<close> is the
  test \<open>if (ele.getAttribute(n))\<close>, which an absent and an empty attribute both fail.\<close>

fun getAttribute :: "node \<Rightarrow> string \<Rightarrow> string option" where
  "getAttribute (Element t a s ks) n = map_of a n"
| "getAttribute (TextNode x) n = None"

definition attrTruthy :: "node \<Rightarrow> string \<Rightarrow> bool" where
  "attrTruthy e n = (case getAttribute e n of None \<Rightarrow> False | Some v \<Rightarrow> v \<noteq> [])"

fun setAttribute :: "node \<Rightarrow> string \<Rightarrow> string \<Rightarrow> node" where
  "setAttribute (Element t a s ks) n v = Element t (AList.update n v a) s ks"
| "setAttribute (TextNode x) n v = TextNode x"

fun getAttributeNames :: "node \<Rightarrow> string list" where
  "getAttributeNames (Element t a s ks) = map fst a"
| "getAttributeNames (TextNode x) = []"

fun isElement :: "node \<Rightarrow> bool" where
  "isElement (Element t a s ks) = True"
| "isElement (TextNode x) = False"

fun innerHTML :: "host \<Rightarrow> node \<Rightarrow> string" where
  "innerHTML h (Element t a s ks) = serializeHtml h ks"
| "innerHTML h (TextNode x) = []"

fun setInnerHTML :: "host \<Rightarrow> node \<Rightarrow> string \<Rightarrow> node" where
  "setInnerHTML h (Element t a s ks) markup = Element t a s (parseHtml h markup)"
| "setInnerHTML h (TextNode x) markup = TextNode x"

definition outerHTML :: "host \<Rightarrow> node \<Rightarrow> string" where
  "outerHTML h e = serializeHtml h [e]"

fun setStyle :: "node \<Rightarrow> string \<Rightarrow> string \<Rightarrow> node" where
  "setStyle (Element t a s ks) k v = Element t a (AList.update k v s) ks"
| "setStyle (TextNode x) k v = TextNode x"

text \<open>\<open>elementFromHtml(html)\<close>: the first element the trimmed markup parses to, or
  \<open>None\<close> for \<open>null\<close>.\<close>

definition elementFromHtml :: "host \<Rightarrow> string \<Rightarrow> node option" where
  "elementFromHtml h html = List.find isElement (parseHtml h (trim html))"

text \<open>The string an \<open>innerHTML\<close> assignment makes of a value (\<open>null\<close> becomes the empty
  string), and the text a template literal makes of an attribute that may be \<open>null\<close>.\<close>

definition domString :: "jsval \<Rightarrow> string" where
  "domString v = (if v = JNull then [] else toStr v)"

definition attrText :: "string option \<Rightarrow> string" where
  "attrText a = (case a of None \<Rightarrow> ''null'' | Some s \<Rightarrow> s)"

text \<open>\<open>eval(a)\<close> of an attribute value: \<open>eval\<close> hands back an argument that is not a
  string, so \<open>eval(null)\<close> is \<open>null\<close>.\<close>

definition evalAttr :: "host \<Rightarrow> scope \<Rightarrow> string option \<Rightarrow> error + jsval" where
  "evalAttr h sc a = (case a of None \<Rightarrow> Inr JNull | Some s \<Rightarrow> evalJs h sc s)"

text \<open>\<open>str.replaceAll(pat, v)\<close> for a value \<open>v\<close>: a function is called as the replacer,
  anything else is replaced by its string form.\<close>

definition replaceAllVal :: "host \<Rightarrow> scope \<Rightarrow> string \<Rightarrow> jsval \<Rightarrow> string \<Rightarrow> error + string" where
  "replaceAllVal h sc pat v str =
     (case v of
        JFun src \<Rightarrow>
          replaceScanFn (\<lambda>m p s. callJs h sc src [JStr m, JNum (int p), JStr s]) pat str 0 str
      | _ \<Rightarrow> Inr (replaceAll pat (toStr v) str))"

text \<open>\<open>new Object(v)\<close>: an object is handed back, \<open>null\<close> and \<open>undefined\<close> give an empty
  object. A primitive gives its wrapper object, which the model identifies with the
  primitive: a wrapped string still has its \<open>length\<close> and its characters as items.\<close>

definition newObject :: "jsval \<Rightarrow> jsval" where
  "newObject v = (if v = JUndefined \<or> v = JNull then JObj objectSrc [] else v)"

type_synonym outcome = "(error \<times> world) + (world \<times> node)"

section \<open>The attribute resolvers\<close>

text \<open>
  Every resolver takes the global state and the element and gives back both, or the
  error it threw together with the global state at the throw. The walker's handler
  overwrites the content of the element, and no resolver changes the attributes or the
  style of its element before its last throwing point, so up to its content the
  element at the throw is the element the resolver was given.
\<close>

definition attrVal :: "string option \<Rightarrow> jsval" where
  "attrVal a = (case a of None \<Rightarrow> JNull | Some s \<Rightarrow> JStr s)"

text \<open>\<open>val == 0\<close> for a falsy \<open>val\<close>: \<open>false\<close> and the empty string convert to the number
  zero, \<open>null\<close>, \<open>undefined\<close> and \<open>NaN\<close> do not.\<close>

definition falsyEqZero :: "jsval \<Rightarrow> bool" where
  "falsyEqZero val = (val = JNum 0 \<or> val = JBool False \<or> val = JStr [])"

text \<open>The value \<open>val ? val : val == 0 ? 0 : ''\<close>.\<close>

definition codeResult :: "jsval \<Rightarrow> jsval" where
  "codeResult val = (if truthy val then val else if falsyEqZero val then JNum 0 else JStr [])"

definition codeAtr :: "host \<Rightarrow> world \<Rightarrow> node \<Rightarrow> outcome" where
  "codeAtr h w ele =
     (if attrTruthy ele ''code'' then
        (case evalAttr h (window w) (getAttribute ele ''code'') of
           Inl err \<Rightarrow> Inl (err, w)
         | Inr val \<Rightarrow> Inr (w, setInnerHTML h ele (domString (codeResult val))))
      else
        (let content = innerHTML h ele in
         case evalJs h ((''content'', JStr content) # window w) content of
           Inl err \<Rightarrow> Inl (err, w)
         | Inr val \<Rightarrow> Inr (w, setInnerHTML h ele (domString (codeResult val)))))"

definition textAtr :: "host \<Rightarrow> world \<Rightarrow> node \<Rightarrow> outcome" where
  "textAtr h w ele =
     (let content = attrVal (getAttribute ele ''text'')
      in Inr (w, setInnerHTML h ele (domString content)))"

definition ifAtr :: "host \<Rightarrow> world \<Rightarrow> node \<Rightarrow> outcome" where
  "ifAtr h w ele =
     (let con = getAttribute ele ''if'' in
      case evalAttr h ((''con'', attrVal con) # window w) con of
        Inl err \<Rightarrow> Inl (err, w)
      | Inr v \<Rightarrow> if \<not> truthy v then Inr (w, setStyle ele ''display'' ''none'') else Inr (w, ele))"

text \<open>
  \<open>Object.assign(ele.style, v)\<close> copies the own enumerable properties of \<open>v\<close> onto the
  style, one after the other. The style object takes no assignment to an index, so a
  property whose key is an array index makes \<open>Object.assign\<close> throw a \<open>TypeError\<close>;
  such keys are the first in enumeration order, so nothing is set before the throw.
  That is the case of every array and string that is not empty. The read-only
  properties of the style object (\<open>length\<close>, \<open>parentRule\<close>) are not modelled.
\<close>

definition isIndexKey :: "string \<Rightarrow> bool" where
  "isIndexKey k = (k \<noteq> [] \<and> list_all (\<lambda>c. c \<in> set ''0123456789'') k
                   \<and> (k = ''0'' \<or> hd k \<noteq> CHR ''0''))"

definition assignStyle :: "node \<Rightarrow> jsval \<Rightarrow> error + node" where
  "assignStyle ele v =
     (case List.find isIndexKey (ownKeys v) of
        Some k \<Rightarrow>
          Inl (Thrown (''Failed to set an indexed property ['' @ k
                       @ ''] on 'CSSStyleDeclaration': Indexed property setter is not supported.''))
      | None \<Rightarrow>
          (case v of
             JObj c kvs \<Rightarrow> Inr (fold (\<lambda>kv e. setStyle e (fst kv) (domString (snd kv))) kvs ele)
           | _ \<Rightarrow> Inr ele))"

definition styleAtr :: "host \<Rightarrow> world \<Rightarrow> node \<Rightarrow> outcome" where
  "styleAtr h w ele =
     (let style = getAttribute ele ''styling'' in
      case evalJs h ((''style'', attrVal style) # window w)
             (''new Object('' @ attrText style @ '')'') of
        Inl err \<Rightarrow> Inl (err, w)
      | Inr v \<Rightarrow>
          (case assignStyle ele v of
             Inl err \<Rightarrow> Inl (err, w)
           | Inr ele' \<Rightarrow> Inr (w, ele')))"

text \<open>
  The regular expression \<open>/{{{[^/}}}]+}}}/g\<close> of \<open>insideAtr\<close>: three opening braces, one
  or more characters that are neither a slash nor a closing brace, three closing
  braces. The character class takes the longest run it can, and nothing shorter can be
  followed by a closing brace, so at a given position the match, if any, is unique.
  \<open>matchSpan s\<close> is the match at the start of \<open>s\<close>: the text between the braces
  (\<open>f.slice(3, -3)\<close>) and what follows the match.
\<close>

definition matchSpan :: "string \<Rightarrow> (string \<times> string) option" where
  "matchSpan s =
     (if take 3 s = ''{{{'' then
        (let body = takeWhile (\<lambda>c. c \<noteq> CHR ''/'' \<and> c \<noteq> CHR ''}'') (drop 3 s);
             rest = drop (3 + length body) s
         in if body \<noteq> [] \<and> take 3 rest = ''}}}'' then Some (body, drop 3 rest) else None)
      else None)"

lemma matchSpan_shorter: "matchSpan s = Some (body, rest) \<Longrightarrow> length rest < length s"
  by (cases s) (auto simp: matchSpan_def Let_def split: if_splits)

text \<open>The global replace with the replacer \<open>(f) => eval(f.slice(3, -3))\<close>: matches are
  taken from the left, each replaced by the string form of the evaluated text.\<close>

function insideScan :: "host \<Rightarrow> scope \<Rightarrow> string \<Rightarrow> error + string" where
  "insideScan h sc s =
     (if s = [] then Inr []
      else case matchSpan s of
          Some (body, rest) \<Rightarrow>
            (case evalJs h ((''f'', JStr (''{{{'' @ body @ ''}}}'')) # sc) body of
               Inl e \<Rightarrow> Inl e
             | Inr v \<Rightarrow>
                 (case insideScan h sc rest of
                    Inl e \<Rightarrow> Inl e
                  | Inr t \<Rightarrow> Inr (toStr v @ t)))
        | None \<Rightarrow>
            (case insideScan h sc (tl s) of
               Inl e \<Rightarrow> Inl e
             | Inr t \<Rightarrow> Inr (hd s # t)))"
  by pat_completeness auto
termination
  by (relation "measure (\<lambda>(h, sc, s). length s)") (auto simp: matchSpan_shorter)

declare insideScan.simps [simp del]

definition insideAtr :: "host \<Rightarrow> world \<Rightarrow> node \<Rightarrow> outcome" where
  "insideAtr h w ele =
     (let ele1 = setInnerHTML h ele
                   (replaceAll '')_'' ''}}}'' (replaceAll ''_('' ''{{{'' (innerHTML h ele)))
      in case insideScan h (window w) (innerHTML h ele1) of
           Inl err \<Rightarrow> Inl (err, w)
         | Inr markup \<Rightarrow> Inr (w, setInnerHTML h ele1 markup))"

section \<open>Loop expansion\<close>

text \<open>
  The number that \<open>i < array.length\<close> compares \<open>i\<close> with: the comparison converts a
  \<open>length\<close> that is not a number. \<open>None\<close> is \<open>NaN\<close>. A text is converted when it spells
  a decimal integer, with a sign and surrounding white space allowed, and the empty
  text is zero; the other spellings (fractions, exponents, other bases, \<open>Infinity\<close>)
  are not modelled and count as \<open>NaN\<close> here. An array converts through its text, an
  object through \<open>[object Object]\<close>; objects that bring their own \<open>valueOf\<close> or
  \<open>toString\<close> are not modelled.
\<close>

definition isDigit :: "char \<Rightarrow> bool" where
  "isDigit c = (c \<in> set ''0123456789'')"

definition digitsValue :: "string \<Rightarrow> nat" where
  "digitsValue ds = foldl (\<lambda>n c. 10 * n + (of_char c - 48)) 0 ds"

definition stringToNumber :: "string \<Rightarrow> int option" where
  "stringToNumber s =
     (let t = trim s in
      if t = [] then Some 0
      else if list_all isDigit t then Some (int (digitsValue t))
      else if hd t = CHR ''+'' \<and> tl t \<noteq> [] \<and> list_all isDigit (tl t)
        then Some (int (digitsValue (tl t)))
      else if hd t = CHR ''-'' \<and> tl t \<noteq> [] \<and> list_all isDigit (tl t)
        then Some (- int (digitsValue (tl t)))
      else None)"

fun toNumber :: "jsval \<Rightarrow> int option" where
  "toNumber JUndefined = None"
| "toNumber JNull = Some 0"
| "toNumber (JBool b) = Some (if b then 1 else 0)"
| "toNumber (JNum i) = Some i"
| "toNumber JNaN = None"
| "toNumber (JStr s) = stringToNumber s"
| "toNumber (JFun src) = None"
| "toNumber (JDate ms str jsn) = Some ms"
| "toNumber (JRegExp src) = None"
| "toNumber (JArr xs) = stringToNumber (toStr (JArr xs))"
| "toNumber (JObj c kvs) = None"

text \<open>
  \<open>array.length\<close> as the bound of the \<open>for\<close> loop: the length of an array or a string,
  the \<open>length\<close> property of an object that has one, converted to a number, and no
  iteration for anything else (\<open>i < undefined\<close> is false). The \<open>length\<close> of a function,
  its number of parameters, is not modelled.
\<close>

definition loopBound :: "jsval \<Rightarrow> nat" where
  "loopBound arr =
     (case arr of
        JArr xs \<Rightarrow> length xs
      | JStr s \<Rightarrow> length s
      | JObj c kvs \<Rightarrow> (case toNumber (getProp arr ''length'') of Some n \<Rightarrow> nat n | None \<Rightarrow> 0)
      | _ \<Rightarrow> 0)"

definition loopScope :: "world \<Rightarrow> string option \<Rightarrow> string option \<Rightarrow> jsval \<Rightarrow> nat \<Rightarrow> scope" where
  "loopScope w lp inA arr i =
     [(''i'', JNum (int i)), (''array'', arr), (''_In'', attrVal inA), (''_loop'', attrVal lp)]
     @ window w"

text \<open>The content of an \<open>item\<close> element in iteration \<open>i\<close>: \<open>eval("array[i]." + item)\<close> when
  the \<open>item\<close> attribute has a value, the item \<open>array[i]\<close> itself when it is empty.\<close>

definition itemValue :: "host \<Rightarrow> scope \<Rightarrow> jsval \<Rightarrow> nat \<Rightarrow> string option \<Rightarrow> error + jsval" where
  "itemValue h sc arr i itemA =
     (case itemA of
        Some it \<Rightarrow>
          if it \<noteq> [] then evalJs h sc (''array['' @ showNat i @ ''].'' @ it)
          else Inr (getProp arr (showNat i))
      | None \<Rightarrow> Inr (getProp arr (showNat i)))"

text \<open>
  The \<open>forEach\<close> over \<open>ele.querySelectorAll("[item]")\<close> in one iteration: the descendants
  that carry an \<open>item\<close> attribute, in document order, each given its new content when its
  \<open>of\<close> attribute equals the loop name. The list is taken before the first assignment,
  so the descendants of an element whose content is replaced are still visited: their
  expressions are evaluated and may throw, but they are no longer part of the tree.
\<close>

fun fillItem :: "host \<Rightarrow> scope \<Rightarrow> string option \<Rightarrow> jsval \<Rightarrow> nat \<Rightarrow> node \<Rightarrow> error + node"
  and fillItems :: "host \<Rightarrow> scope \<Rightarrow> string option \<Rightarrow> jsval \<Rightarrow> nat \<Rightarrow> node list \<Rightarrow> error + node list"
where
  "fillItem h sc lp arr i (TextNode x) = Inr (TextNode x)"
| "fillItem h sc lp arr i (Element t a s ks) =
     (if map_of a ''item'' \<noteq> None \<and> map_of a ''of'' = lp then
        (case itemValue h sc arr i (map_of a ''item'') of
           Inl e \<Rightarrow> Inl e
         | Inr v \<Rightarrow>
             (case fillItems h sc lp arr i ks of
                Inl e \<Rightarrow> Inl e
              | Inr ks' \<Rightarrow> Inr (Element t a s (parseHtml h (domString v)))))
      else
        (case fillItems h sc lp arr i ks of
           Inl e \<Rightarrow> Inl e
         | Inr ks' \<Rightarrow> Inr (Element t a s ks')))"
| "fillItems h sc lp arr i [] = Inr []"
| "fillItems h sc lp arr i (k # ks) =
     (case fillItem h sc lp arr i k of
        Inl e \<Rightarrow> Inl e
      | Inr k' \<Rightarrow>
          (case fillItems h sc lp arr i ks of
             Inl e \<Rightarrow> Inl e
           | Inr ks' \<Rightarrow> Inr (k' # ks')))"

text \<open>
  The body of the \<open>for\<close> loop, over the indices still to run. The state is the global
  state, the element and \<open>result\<close>, which is an undeclared variable and so a property of
  \<open>window\<close> that the expressions can see.
\<close>

fun loopIters ::
  "host \<Rightarrow> string option \<Rightarrow> string option \<Rightarrow> jsval \<Rightarrow> nat list \<Rightarrow> world \<times> node \<times> string
    \<Rightarrow> (error \<times> world) + (world \<times> node \<times> string)" where
  "loopIters h lp inA arr [] st = Inr st"
| "loopIters h lp inA arr (i # idxs) (w, ele, result) =
     (case fillItems h (loopScope w lp inA arr i) lp arr i (childNodes ele) of
        Inl err \<Rightarrow> Inl (err, w)
      | Inr ks \<Rightarrow>
          (let ele1 = setChildNodes ele ks;
               r1 = result @ innerHTML h ele1;
               w1 = setGlobal ''result'' (JStr r1) w;
               r2 = replaceAll (''i_'' @ attrText lp) (showNat i) r1;
               w2 = setGlobal ''result'' (JStr r2) w1
           in case replaceAllVal h (loopScope w2 lp inA arr i) (''v_'' @ attrText lp)
                     (getProp arr (showNat i)) r2 of
                Inl err \<Rightarrow> Inl (err, w2)
              | Inr r3 \<Rightarrow>
                  loopIters h lp inA arr idxs (setGlobal ''result'' (JStr r3) w2, ele1, r3)))"

definition loopEle :: "host \<Rightarrow> world \<Rightarrow> node \<Rightarrow> outcome" where
  "loopEle h w ele =
     (let lp = getAttribute ele ''loop'';
          inA = getAttribute ele ''in''
      in case evalJs h ([(''_In'', attrVal inA), (''_loop'', attrVal lp)] @ window w)
                ('' new Object('' @ attrText inA @ '')'') of
           Inl err \<Rightarrow> Inl (err, w)
         | Inr v \<Rightarrow>
             (let arr = newObject v;
                  w1 = setGlobal (attrText lp) arr w;
                  w2 = setGlobal ''result'' (JStr []) w1
              in case loopIters h lp inA arr [0..<loopBound arr] (w2, ele, []) of
                   Inl ew \<Rightarrow> Inl ew
                 | Inr (w3, ele3, result) \<Rightarrow> Inr (w3, setInnerHTML h ele3 result)))"

section \<open>Data binding\<close>

text \<open>\<open>obj[k] = v\<close>: an object gets or updates the property. Named properties of
  arrays and of wrapped primitives are not modelled, and a primitive ignores the
  assignment.\<close>

definition setProp :: "jsval \<Rightarrow> string \<Rightarrow> jsval \<Rightarrow> jsval" where
  "setProp obj k v = (case obj of JObj c kvs \<Rightarrow> JObj c (AList.update k v kvs) | _ \<Rightarrow> obj)"

text \<open>Stands for the source text of the mutator that \<open>dataAtr\<close> installs.\<close>

definition setSrc :: string where
  "setSrc = ''function(item,value){...}''"

text \<open>
  The function \<open>replaceAll()\<close> inside \<open>dataAtr\<close>: for every key of \<open>data\<close> but \<open>set\<close>, the
  tokens \<open>_key_\<close> of the content are replaced by \<open>data[key]\<close>. Each round reads and
  writes \<open>innerHTML\<close>.
\<close>

fun replaceKeys :: "host \<Rightarrow> scope \<Rightarrow> jsval \<Rightarrow> string list \<Rightarrow> node \<Rightarrow> error + node" where
  "replaceKeys h sc data [] ele = Inr ele"
| "replaceKeys h sc data (key # keys) ele =
     (if key \<noteq> ''set'' then
        (case replaceAllVal h sc (''_'' @ key @ ''_'') (getProp data key) (innerHTML h ele) of
           Inl e \<Rightarrow> Inl e
         | Inr markup \<Rightarrow> replaceKeys h sc data keys (setInnerHTML h ele markup))
      else replaceKeys h sc data keys ele)"

text \<open>The text \<open>"[" + data[key].map(m => "'" + m + "'") + "]"\<close> for an array.\<close>

definition quotedList :: "jsval list \<Rightarrow> string" where
  "quotedList xs = ''['' @ join '','' (map (\<lambda>m. [CHR 0x27] @ toStr m @ [CHR 0x27]) xs) @ '']''"

fun replaceKeysAnon :: "host \<Rightarrow> scope \<Rightarrow> jsval \<Rightarrow> string list \<Rightarrow> node \<Rightarrow> error + node" where
  "replaceKeysAnon h sc data [] ele = Inr ele"
| "replaceKeysAnon h sc data (key # keys) ele =
     (case getProp data key of
        JArr xs \<Rightarrow>
          replaceKeysAnon h sc data keys
            (setInnerHTML h ele (replaceAll (''_'' @ key @ ''_'') (quotedList xs) (innerHTML h ele)))
      | v \<Rightarrow>
          (case replaceAllVal h sc (''_'' @ key @ ''_'') v (innerHTML h ele) of
             Inl e \<Rightarrow> Inl e
           | Inr markup \<Rightarrow> replaceKeysAnon h sc data keys (setInnerHTML h ele markup)))"

definition dataAtr :: "host \<Rightarrow> world \<Rightarrow> node \<Rightarrow> outcome" where
  "dataAtr h w ele =
     (if attrTruthy ele ''name'' then
        (case evalJs h (window w) ('' new Object('' @ attrText (getAttribute ele ''data'') @ '')'') of
           Inl err \<Rightarrow> Inl (err, w)
         | Inr v \<Rightarrow>
             (let data = setProp (newObject v) ''set'' (JFun setSrc);
                  w1 = setGlobal (attrText (getAttribute ele ''name'')) data w
              in case replaceKeys h (window w1) data (ownKeys data) ele of
                   Inl err \<Rightarrow> Inl (err, w1)
                 | Inr ele' \<Rightarrow> Inr (w1, ele')))
      else
        (case evalJs h (window w) ('' new Object('' @ attrText (getAttribute ele ''data'') @ '')'') of
           Inl err \<Rightarrow> Inl (err, w)
         | Inr data \<Rightarrow>
             (case replaceKeysAnon h (window w) data (ownKeys data) ele of
                Inl err \<Rightarrow> Inl (err, w)
              | Inr ele' \<Rightarrow> Inr (w, ele'))))"

section \<open>Template expansion\<close>

text \<open>
  One target of the clone and one attribute \<open>att\<close> of the caller with its value: when
  \<open>att\<close> starts with the target's slot name and a dot, the rest of \<open>att\<close> names the
  attribute to set on the target; \<open>class\<close> is set to the old \<open>class\<close> (read with
  \<open>getAttribute\<close>, so \<open>null\<close> prints as such), a space and the value.
\<close>

definition projectTarget :: "string \<Rightarrow> string \<Rightarrow> node \<Rightarrow> node" where
  "projectTarget att v target =
     (case getAttribute target ''target'' of
        None \<Rightarrow> target
      | Some targetName \<Rightarrow>
          if take (length targetName + 1) att = targetName @ ''.'' then
            (if drop (length targetName + 1) att = ''class'' then
               setAttribute target (drop (length targetName + 1) att)
                 (attrText (getAttribute target ''class'') @ '' '' @ v)
             else setAttribute target (drop (length targetName + 1) att) v)
          else target)"

text \<open>The \<open>forEach\<close> over \<open>querySelectorAll("[target]")\<close> for one attribute: every
  descendant of the clone, the clone itself not included.\<close>

fun projectNode :: "string \<Rightarrow> string \<Rightarrow> node \<Rightarrow> node" where
  "projectNode att v (TextNode x) = TextNode x"
| "projectNode att v (Element t a s ks) =
     projectTarget att v (Element t a s (map (projectNode att v) ks))"

fun descendants :: "node \<Rightarrow> node list" where
  "descendants (TextNode x) = []"
| "descendants (Element t a s ks) =
     concat (map (\<lambda>k. if isElement k then k # descendants k else []) ks)"

text \<open>\<open>setAttribute\<close> throws on the empty name, which is what is left of an attribute
  that is just a slot name and a dot.\<close>

definition projectThrows :: "string \<Rightarrow> node \<Rightarrow> bool" where
  "projectThrows att clone =
     list_ex (\<lambda>target. case getAttribute target ''target'' of
                          None \<Rightarrow> False
                        | Some targetName \<Rightarrow> att = targetName @ ''.'')
       (descendants clone)"

fun projectAll :: "(string \<times> string) list \<Rightarrow> node \<Rightarrow> error + node" where
  "projectAll [] clone = Inr clone"
| "projectAll ((att, v) # atts) clone =
     (if projectThrows att clone
        then Inl (Thrown (''Failed to execute 'setAttribute' on 'Element': '' @ [CHR 0x27, CHR 0x27]
                     @ '' is not a valid attribute name.''))
      else projectAll atts (setChildNodes clone (map (projectNode att v) (childNodes clone))))"

fun attributesOf :: "node \<Rightarrow> (string \<times> string) list" where
  "attributesOf (Element t a s ks) = a"
| "attributesOf (TextNode x) = []"

text \<open>The \<open>forEach\<close> over the chosen snapshot list: every snapshot whose \<open>name\<close> equals
  \<open>tempName\<close> is cloned, projected on and expanded into the element, one after the
  other.\<close>

fun expandTemps :: "host \<Rightarrow> string \<Rightarrow> node list \<Rightarrow> world \<Rightarrow> node \<Rightarrow> outcome" where
  "expandTemps h tempName [] w ele = Inr (w, ele)"
| "expandTemps h tempName (temp # temps) w ele =
     (if getAttribute temp ''name'' = Some tempName then
        (case elementFromHtml h (outerHTML h temp) of
           None \<Rightarrow>
             Inl (Thrown (if attributesOf ele = []
                          then ''Cannot read properties of null (reading 'innerHTML')''
                          else ''Cannot read properties of null (reading 'querySelectorAll')''), w)
         | Some tempInnerHTML \<Rightarrow>
             (case projectAll (attributesOf ele) tempInnerHTML of
                Inl err \<Rightarrow> Inl (err, w)
              | Inr clone \<Rightarrow>
                  (case dataAtr h w
                          (setInnerHTML h ele
                             (replaceAll ''_children_'' (innerHTML h ele) (innerHTML h clone))) of
                     Inl ew \<Rightarrow> Inl ew
                   | Inr (w', ele') \<Rightarrow> expandTemps h tempName temps w' ele')))
      else expandTemps h tempName temps w ele)"

definition getTemp :: "host \<Rightarrow> world \<Rightarrow> node \<Rightarrow> outcome" where
  "getTemp h w ele =
     (let tempName = butlast (localName ele);
          w1 = setGlobal ''tempName'' (JStr tempName) w;
          allTemps = (if getAttribute ele ''from'' = Some ''handy-ui''
                      then getTempsElementsUI w1 else getTempsElements w1)
      in expandTemps h tempName allTemps w1 ele)"

section \<open>The tree walker\<close>

text \<open>
  The eight \<open>if\<close> statements of the \<open>try\<close> block, each with its test on the child
  (\<open>trigger\<close>) and the resolver it calls (\<open>run\<close>). \<open>getAttribute(n) == "" || getAttribute(n)\<close>
  holds as soon as the attribute is there; \<open>localName.substr(-1)\<close> is the last character
  of the tag name.
\<close>

datatype resolver = RLoop | RData | RCode | RIf | RStyling | RInside | RTemp | RText

fun trigger :: "resolver \<Rightarrow> node \<Rightarrow> bool" where
  "trigger RLoop child = attrTruthy child ''loop''"
| "trigger RData child = attrTruthy child ''data''"
| "trigger RCode child = (getAttribute child ''code'' = Some [] \<or> attrTruthy child ''code'')"
| "trigger RIf child = attrTruthy child ''if''"
| "trigger RStyling child = attrTruthy child ''styling''"
| "trigger RInside child = (getAttribute child ''inside'' = Some [] \<or> attrTruthy child ''inside'')"
| "trigger RTemp child = (localName child \<noteq> [] \<and> last (localName child) = CHR ''.'')"
| "trigger RText child = attrTruthy child ''text''"

fun run :: "host \<Rightarrow> resolver \<Rightarrow> world \<Rightarrow> node \<Rightarrow> outcome" where
  "run h RLoop = loopEle h"
| "run h RData = dataAtr h"
| "run h RCode = codeAtr h"
| "run h RIf = ifAtr h"
| "run h RStyling = styleAtr h"
| "run h RInside = insideAtr h"
| "run h RTemp = getTemp h"
| "run h RText = textAtr h"

text \<open>
  The state inside the \<open>try\<close> block: the resolvers called so far, in call order (a
  record the source does not keep, added to state what was attempted), and either the
  global state and the child, or the error thrown with the global state at the throw
  and the child as the failing resolver was given it, which up to its content it
  still is then. One \<open>step\<close> is one \<open>if\<close> statement; after a throw the remaining
  statements are not reached.
\<close>

type_synonym tryState = "resolver list \<times> ((error \<times> world \<times> node) + (world \<times> node))"

fun step :: "host \<Rightarrow> resolver \<Rightarrow> tryState \<Rightarrow> tryState" where
  "step h r (tr, Inl thrown) = (tr, Inl thrown)"
| "step h r (tr, Inr (w, child)) =
     (if trigger r child then
        (tr @ [r], case run h r w child of
                     Inl (err, w') \<Rightarrow> Inl (err, w', child)
                   | Inr wc \<Rightarrow> Inr wc)
      else (tr, Inr (w, child)))"

definition tryBlock :: "host \<Rightarrow> world \<Rightarrow> node \<Rightarrow> tryState" where
  "tryBlock h w child =
     step h RText (step h RTemp (step h RInside (step h RStyling (step h RIf
       (step h RCode (step h RData (step h RLoop ([], Inr (w, child)))))))))"

definition banner :: "string \<Rightarrow> string" where
  "banner message =
     ''<div style='background:#f003;color:#f00;padding:4px 10px;width:fit-content;border-radius:8px;'>''
     @ message @ ''</div>''"

text \<open>
  \<open>err.message\<close> as the handler reads it: the message of an error object; for another
  thrown value its \<open>message\<close> property, which most values do not have, so that the
  banner reads \<open>undefined\<close>; and a \<open>TypeError\<close> of its own when the thrown value is \<open>null\<close>
  or \<open>undefined\<close>.
\<close>

fun errMessage :: "error \<Rightarrow> error + string" where
  "errMessage (Thrown m) = Inr m"
| "errMessage (ThrownValue v) =
     (if v = JUndefined \<or> v = JNull
        then Inl (Thrown (''Cannot read properties of '' @ toStr v @ '' (reading 'message')''))
      else Inr (toStr (getProp v ''message'')))"

text \<open>
  The \<open>try\<close> statement with its handler: what the child and the global state are
  when \<open>htmlLogic(child)\<close> is called. The handler is outside the \<open>try\<close> block, so a throw
  of its own leaves the statement. A walk that an error leaves is modelled by the
  error and the global state at the throw; the document it leaves behind is not part
  of the model.
\<close>

definition tryCatch :: "host \<Rightarrow> world \<Rightarrow> node \<Rightarrow> outcome" where
  "tryCatch h w child =
     (case snd (tryBlock h w child) of
        Inl (err, w', child') \<Rightarrow>
          (case errMessage err of
             Inl e \<Rightarrow> Inl (e, w')
           | Inr message \<Rightarrow> Inr (w', setInnerHTML h child' (banner message)))
      | Inr wc \<Rightarrow> Inr wc)"

text \<open>
  \<open>htmlLogic(element)\<close>. The recursion follows the content the resolvers produce, which
  nothing bounds (a template can expand to its own tag), so the model counts the depth
  of calls it may still make: \<open>None\<close> is the call stack running out. \<open>walkChildren\<close> is
  the \<open>forEach\<close> over \<open>element.children\<close>, which holds the element children only; text
  nodes stay where they are. Nothing catches a throw of the handler: it leaves the
  \<open>forEach\<close> and every call of \<open>htmlLogic\<close> around it, so that the children not reached
  yet are not walked.
\<close>

fun htmlLogic :: "host \<Rightarrow> nat \<Rightarrow> world \<Rightarrow> node \<Rightarrow> outcome option"
  and walkChildren ::
    "host \<Rightarrow> nat \<Rightarrow> world \<Rightarrow> node list \<Rightarrow> ((error \<times> world) + (world \<times> node list)) option"
where
  "htmlLogic h 0 w element = None"
| "htmlLogic h (Suc n) w element =
     (case walkChildren h n w (childNodes element) of
        None \<Rightarrow> None
      | Some (Inl ew) \<Rightarrow> Some (Inl ew)
      | Some (Inr (w', ks)) \<Rightarrow> Some (Inr (w', setChildNodes element ks)))"
| "walkChildren h n w [] = Some (Inr (w, []))"
| "walkChildren h n w (child # rest) =
     (if isElement child then
        (case tryCatch h w child of
           Inl ew \<Rightarrow> Some (Inl ew)
         | Inr (w1, child1) \<Rightarrow>
             (case htmlLogic h n w1 child1 of
                None \<Rightarrow> None
              | Some (Inl ew) \<Rightarrow> Some (Inl ew)
              | Some (Inr (w2, child2)) \<Rightarrow>
                  (case walkChildren h n w2 rest of
                     None \<Rightarrow> None
                   | Some (Inl ew) \<Rightarrow> Some (Inl ew)
                   | Some (Inr (w3, rest')) \<Rightarrow> Some (Inr (w3, child2 # rest')))))
      else
        (case walkChildren h n w rest of
           None \<Rightarrow> None
         | Some (Inl ew) \<Rightarrow> Some (Inl ew)
         | Some (Inr (w3, rest')) \<Rightarrow> Some (Inr (w3, child # rest'))))"

section \<open>The mutator of a named binding\<close>

text \<open>\<open>JSON.stringify\<close>: \<open>None\<close> is \<open>undefined\<close>, the result for \<open>undefined\<close> and for a
  function; inside an array these print as \<open>null\<close>, inside an object their property is
  left out. Objects that bring a \<open>toJSON\<close> method of their own are not modelled.\<close>

definition hexChar :: "nat \<Rightarrow> char" where
  "hexChar d = ''0123456789abcdef'' ! d"

definition escapeChar :: "char \<Rightarrow> string" where
  "escapeChar c =
     (if c = CHR 0x22 then [CHR 0x5C, CHR 0x22]
      else if c = CHR 0x5C then [CHR 0x5C, CHR 0x5C]
      else if c = CHR 0x08 then [CHR 0x5C, CHR ''b'']
      else if c = CHR 0x0C then [CHR 0x5C, CHR ''f'']
      else if c = CHR 0x0A then [CHR 0x5C, CHR ''n'']
      else if c = CHR 0x0D then [CHR 0x5C, CHR ''r'']
      else if c = CHR 0x09 then [CHR 0x5C, CHR ''t'']
      else if (of_char c :: nat) < 32
        then [CHR 0x5C, CHR ''u'', CHR ''0'', CHR ''0'',
              hexChar ((of_char c :: nat) div 16), hexChar ((of_char c :: nat) mod 16)]
      else [c])"

definition jsonQuote :: "string \<Rightarrow> string" where
  "jsonQuote s = CHR 0x22 # concat (map escapeChar s) @ [CHR 0x22]"

fun stringify :: "jsval \<Rightarrow> string option"
  and stringifyItems :: "jsval list \<Rightarrow> string list"
  and stringifyProps :: "(string \<times> jsval) list \<Rightarrow> string list"
where
  "stringify JUndefined = None"
| "stringify JNull = Some ''null''"
| "stringify (JBool b) = Some (if b then ''true'' else ''false'')"
| "stringify (JNum i) = Some (showInt i)"
| "stringify JNaN = Some ''null''"
| "stringify (JStr s) = Some (jsonQuote s)"
| "stringify (JFun src) = None"
| "stringify (JDate ms str jsn) = Some (jsonQuote jsn)"
| "stringify (JRegExp src) = Some ''{}''"
| "stringify (JArr xs) = Some (''['' @ join '','' (stringifyItems xs) @ '']'')"
| "stringify (JObj c kvs) = Some (''{'' @ join '','' (stringifyProps kvs) @ ''}'')"
| "stringifyItems [] = []"
| "stringifyItems (x # xs) =
     (case stringify x of None \<Rightarrow> ''null'' | Some t \<Rightarrow> t) # stringifyItems xs"
| "stringifyProps [] = []"
| "stringifyProps ((k, x) # kvs) =
     (case stringify x of
        None \<Rightarrow> stringifyProps kvs
      | Some t \<Rightarrow> (jsonQuote k @ '':'' @ t) # stringifyProps kvs)"


















section \<open>A host for the examples\<close>

text \<open>
  A small host on which the resolvers can be run: a parser that is right on text
  without markup and on the error banner around such text, a serializer, an evaluator
  that knows a handful of expressions and throws on every other text, the call of
  the one function \<open>v=>v+1\<close>, and no assignment text that it can evaluate.
\<close>

definition bannerOpen :: string where
  "bannerOpen = ''<div style='background:#f003;color:#f00;padding:4px 10px;width:fit-content;border-radius:8px;'>''"

definition demoParse :: "string \<Rightarrow> node list" where
  "demoParse s =
     (if s = [] then []
      else if take (length bannerOpen) s = bannerOpen \<and> drop (length s - 6) s = ''</div>''
        then [Element ''div''
                [(''style'', ''background:#f003;color:#f00;padding:4px 10px;width:fit-content;border-radius:8px;'')]
                [] [TextNode (take (length s - 6 - length bannerOpen) (drop (length bannerOpen) s))]]
      else [TextNode s])"

fun demoSerialize :: "node list \<Rightarrow> string" where
  "demoSerialize [] = []"
| "demoSerialize (TextNode x # ns) = x @ demoSerialize ns"
| "demoSerialize (Element t a s ks # ns) =
     ''<'' @ t @ concat (map (\<lambda>kv. '' '' @ fst kv @ ''='' @ [CHR 0x22] @ snd kv @ [CHR 0x22]) a) @ ''>''
     @ demoSerialize ks @ ''</'' @ t @ ''>'' @ demoSerialize ns"

definition demoEval :: "scope \<Rightarrow> string \<Rightarrow> error + jsval" where
  "demoEval sc s =
     (if s = [] then Inr JUndefined
      else if s = ''1+2'' then Inr (JNum 3)
      else if s = ''6/2'' then Inr (JNum 3)
      else if s = ''1==2'' then Inr (JBool False)
      else if s = '' new Object(['red','blue'])'' then Inr (JArr [JStr ''red'', JStr ''blue''])
      else if s = '' new Object(['$$'])'' then Inr (JArr [JStr ''$$''])
      else if s = '' new Object({count:1})'' then Inr (JObj objectSrc [(''count'', JNum 1)])
      else if s = '' new Object(null)'' then Inr (JObj objectSrc [])
      else Inl (Thrown ''Unexpected token''))"

definition demoCall :: "scope \<Rightarrow> string \<Rightarrow> jsval list \<Rightarrow> error + jsval" where
  "demoCall sc src args =
     (case args of
        [JNum n] \<Rightarrow> if src = ''v=>v+1'' then Inr (JNum (n + 1)) else Inl (Thrown ''not a function'')
      | _ \<Rightarrow> Inl (Thrown ''not a function''))"

definition demoAssign :: "scope \<Rightarrow> jsval \<Rightarrow> string \<Rightarrow> error + jsval" where
  "demoAssign sc this s = Inl (Thrown ''Unexpected token'')"

definition demoHost :: host where
  "demoHost = \<lparr>evalJs = demoEval, callJs = demoCall, parseHtml = demoParse,
                serializeHtml = demoSerialize, assignJs = demoAssign\<rparr>"

definition emptyWorld :: world where
  "emptyWorld = \<lparr>window = [], allDataElements = [], getTempsElements = [],
                  getTempsElementsUI = []\<rparr>"

section \<open>Loop expansion as the specification words it\<close>

text \<open>
  The expansion in the words of the specification, to compare \<open>loopEle\<close> with: the copy
  of iteration \<open>k\<close> is the content read in that iteration, with the index put for
  \<open>i_name\<close> and the string form of item \<open>k\<close> for \<open>v_name\<close>, and the expansion up to
  \<open>n\<close> is the copies of the iterations \<open>0\<close> to \<open>n - 1\<close> in this order. \<open>K (Suc k)\<close> is the
  list of child nodes that iteration \<open>k\<close> reads, after it has filled the \<open>item\<close>
  elements.
\<close>

definition loopCopy :: "host \<Rightarrow> string \<Rightarrow> jsval list \<Rightarrow> (nat \<Rightarrow> node list) \<Rightarrow> nat \<Rightarrow> string" where
  "loopCopy h name xs K k =
     replaceAll (''v_'' @ name) (toStr (xs ! k))
       (replaceAll (''i_'' @ name) (showNat k) (serializeHtml h (K (Suc k))))"

definition loopCopies :: "host \<Rightarrow> string \<Rightarrow> jsval list \<Rightarrow> (nat \<Rightarrow> node list) \<Rightarrow> nat \<Rightarrow> string" where
  "loopCopies h name xs K n = concat (map (loopCopy h name xs K) [0..<n])"

text \<open>An occurrence of \<open>pat\<close> in \<open>a @ b\<close> that begins inside \<open>a\<close>.\<close>

definition startsIn :: "string \<Rightarrow> string \<Rightarrow> string \<Rightarrow> bool" where
  "startsIn pat a b = list_ex (\<lambda>k. take (length pat) (drop k (a @ b)) = pat) [0..<length a]"

section \<open>Notions for the statements about the walker\<close>

text \<open>The order in which the \<open>try\<close> block lists the resolvers, and the attribute that
  the test of each resolver reads (the template test reads the tag name instead).\<close>

definition resolverOrder :: "resolver list" where
  "resolverOrder = [RLoop, RData, RCode, RIf, RStyling, RInside, RTemp, RText]"

fun triggerAttribute :: "resolver \<Rightarrow> string option" where
  "triggerAttribute RLoop = Some ''loop''"
| "triggerAttribute RData = Some ''data''"
| "triggerAttribute RCode = Some ''code''"
| "triggerAttribute RIf = Some ''if''"
| "triggerAttribute RStyling = Some ''styling''"
| "triggerAttribute RInside = Some ''inside''"
| "triggerAttribute RTemp = None"
| "triggerAttribute RText = Some ''text''"

text \<open>Two nodes are the same element up to content and style: same kind, same tag
  name, same attributes.\<close>

definition sameTag :: "node \<Rightarrow> node \<Rightarrow> bool" where
  "sameTag c c' = (isElement c' = isElement c \<and> localName c' = localName c
                   \<and> attributesOf c' = attributesOf c)"

text \<open>The state of the \<open>try\<close> block when the statement of resolver \<open>r\<close> is reached:
  the statements before it have run. It is a thrown error when one of them threw.\<close>

definition stateBefore :: "host \<Rightarrow> world \<Rightarrow> node \<Rightarrow> resolver \<Rightarrow> tryState" where
  "stateBefore h w child r =
     foldl (\<lambda>st q. step h q st) ([], Inr (w, child)) (takeWhile (\<lambda>q. q \<noteq> r) resolverOrder)"

section \<open>A host for the template examples\<close>

text \<open>
  Template definitions for the examples, and a parser that inverts the serializer on
  the fragments the examples need and is the example parser elsewhere.
\<close>

definition cardA :: node where
  "cardA = Element ''temp.create'' [(''name'', ''card'')] [] [TextNode ''A'']"

definition cardB :: node where
  "cardB = Element ''temp.create'' [(''name'', ''card'')] [] [TextNode ''B'']"

definition noteT :: node where
  "noteT = Element ''temp.create'' [(''name'', ''note'')] [] [TextNode ''N'']"

definition cardTitle :: node where
  "cardTitle = Element ''temp.create'' [(''name'', ''card'')] []
     [Element ''h1'' [(''target'', ''title''), (''class'', ''head'')] [] [TextNode ''_children_'']]"

definition tempFragments :: "node list list" where
  "tempFragments =
     [[cardA], [cardB], [noteT], [cardTitle],
      [Element ''h1'' [(''target'', ''title''), (''class'', ''head big'')] [] [TextNode ''Hi'']]]"

definition tempParse :: "string \<Rightarrow> node list" where
  "tempParse s =
     (case List.find (\<lambda>ns. demoSerialize ns = s) tempFragments of
        Some ns \<Rightarrow> ns
      | None \<Rightarrow> demoParse s)"

definition tempHost :: host where
  "tempHost = \<lparr>evalJs = demoEval, callJs = demoCall, parseHtml = tempParse,
                serializeHtml = demoSerialize, assignJs = demoAssign\<rparr>"

definition registry :: "node list \<Rightarrow> world" where
  "registry temps = \<lparr>window = [], allDataElements = [], getTempsElements = temps,
                       getTempsElementsUI = []\<rparr>"

section \<open>Notions for the statements about the mutator\<close>


section \<open>A named binding for the examples\<close>





section \<open>Replacement, spans and the order of resolvers as the specification words them\<close>

text \<open>
  Replacing every occurrence of a token by a text, the text taken as it is: the
  occurrences are found from the left and do not overlap.
\<close>

function substAll :: "string \<Rightarrow> string \<Rightarrow> string \<Rightarrow> string" where
  "substAll pat rep s =
     (if s = [] \<or> pat = [] then s
      else if take (length pat) s = pat then rep @ substAll pat rep (drop (length pat) s)
      else hd s # substAll pat rep (tl s))"
  by pat_completeness auto
termination
  by (relation "measure (\<lambda>(pat, rep, s). length s)") auto

declare substAll.simps [simp del]



text \<open>
  A triple-brace span as the specification has it: three opening braces, a body that
  is not empty and holds no closing brace, three closing braces. \<open>specScan\<close> replaces
  the spans from the left by the string form of their evaluated body, and
  \<open>slashFreeSpans\<close> says that no span of the text has a slash in its body.
\<close>

definition specSpan :: "string \<Rightarrow> (string \<times> string) option" where
  "specSpan s =
     (if take 3 s = ''{{{'' then
        (let body = takeWhile (\<lambda>c. c \<noteq> CHR ''}'') (drop 3 s);
             rest = drop (3 + length body) s
         in if body \<noteq> [] \<and> take 3 rest = ''}}}'' then Some (body, drop 3 rest) else None)
      else None)"

lemma specSpan_shorter: "specSpan s = Some (body, rest) \<Longrightarrow> length rest < length s"
  by (cases s) (auto simp: specSpan_def Let_def split: if_splits)

function specScan :: "host \<Rightarrow> scope \<Rightarrow> string \<Rightarrow> error + string" where
  "specScan h sc s =
     (if s = [] then Inr []
      else case specSpan s of
          Some (body, rest) \<Rightarrow>
            (case evalJs h ((''f'', JStr (''{{{'' @ body @ ''}}}'')) # sc) body of
               Inl e \<Rightarrow> Inl e
             | Inr v \<Rightarrow>
                 (case specScan h sc rest of
                    Inl e \<Rightarrow> Inl e
                  | Inr t \<Rightarrow> Inr (toStr v @ t)))
        | None \<Rightarrow>
            (case specScan h sc (tl s) of
               Inl e \<Rightarrow> Inl e
             | Inr t \<Rightarrow> Inr (hd s # t)))"
  by pat_completeness auto
termination
  by (relation "measure (\<lambda>(h, sc, s). length s)") (auto simp: specSpan_shorter)

declare specScan.simps [simp del]

definition slashFreeSpans :: "string \<Rightarrow> bool" where
  "slashFreeSpans s =
     list_all (\<lambda>t. case specSpan t of Some (body, rest) \<Rightarrow> CHR ''/'' \<notin> set body | None \<Rightarrow> True)
       (suffixes s)"


section \<open>A host for the examples of the walk\<close>

text \<open>
  The example host with some more: the text \<open>boom()\<close> throws an error whose message is
  the markup of an element with a \<open>code\<close> attribute, the text \<open>throw null\<close> throws \<open>null\<close>,
  and the parser knows the banner around that message and two fragments with a \<open>text\<close>
  attribute.
\<close>

definition codeB :: node where
  "codeB = Element ''b'' [(''code'', ''1+2'')] [] [TextNode ''x'']"

definition textB :: "string \<Rightarrow> node" where
  "textB v = Element ''b'' [(''text'', v)] [] [TextNode ''x'']"

definition bannerStyle :: string where
  "bannerStyle = ''background:#f003;color:#f00;padding:4px 10px;width:fit-content;border-radius:8px;''"

definition walkTable :: "(string \<times> node list) list" where
  "walkTable =
     [(banner (demoSerialize [codeB]), [Element ''div'' [(''style'', bannerStyle)] [] [codeB]]),
      (demoSerialize [textB ''_count_''], [textB ''_count_'']),
      (demoSerialize [textB ''2''], [textB ''2''])]"

definition walkParse :: "string \<Rightarrow> node list" where
  "walkParse s = (case map_of walkTable s of Some ns \<Rightarrow> ns | None \<Rightarrow> demoParse s)"

definition walkEval :: "scope \<Rightarrow> string \<Rightarrow> error + jsval" where
  "walkEval sc s =
     (if s = ''boom()'' then Inl (Thrown (demoSerialize [codeB]))
      else if s = ''throw null'' then Inl (ThrownValue JNull)
      else demoEval sc s)"

definition walkHost :: host where
  "walkHost = \<lparr>evalJs = walkEval, callJs = demoCall, parseHtml = walkParse,
                serializeHtml = demoSerialize, assignJs = demoAssign\<rparr>"

section \<open>Deep equality\<close>

text \<open>
  C9. The claim: \<open>is\<close> returns true for objects with identical own-key sets and
  deep-equal values, false for all differing cases, and is reflexive and symmetric over
  plain data. The default case of the object branch compares the number of keys and
  then reads every key of \<open>value1\<close> from \<open>value2\<close>, never asking whether \<open>value2\<close> has the
  key: a missing key reads as \<open>undefined\<close>. So \<open>is({a: undefined}, {b: 1})\<close> is true
  although the key sets differ, while \<open>is({b: 1}, {a: undefined})\<close> is false.
\<close>

theorem is_op_differing_keys:
  "is_op (JObj objectSrc [(''a'', JUndefined)]) (JObj objectSrc [(''b'', JNum 1)]) = Inr True
   \<and> is_op (JObj objectSrc [(''b'', JNum 1)]) (JObj objectSrc [(''a'', JUndefined)]) = Inr False"
  by (simp add: or_op_def not_op_def inherited_def objectProto_def)

section \<open>Inline code\<close>

lemma showInt_0: "showInt 0 = ''0''"
  by (simp add: showInt_def showNat.simps digitChar_def)

lemma domString_codeResult:
  "domString (codeResult val) =
     (if truthy val then toStr val
      else if val = JNum 0 \<or> val = JBool False \<or> val = JStr [] then ''0'' else [])"
  by (cases val) (auto simp: domString_def codeResult_def falsyEqZero_def showInt_0)

text \<open>
  C6, as amended. \<open>codeAtr\<close> evaluates the \<open>code\<close> attribute when it is not empty and
  the inner content otherwise. When the evaluation returns \<open>val\<close>, the new content is the
  string form of a truthy \<open>val\<close>; it is \<open>0\<close> for a falsy \<open>val\<close> that \<open>==\<close> counts as equal
  to zero, which is the number zero, \<open>false\<close> and the empty string; and it is empty for the
  other falsy values, \<open>null\<close>, \<open>undefined\<close> and \<open>NaN\<close>. The global state is unchanged.
\<close>

theorem codeAtr_renders:
  assumes "(attrTruthy ele ''code'' \<and> evalAttr h (window w) (getAttribute ele ''code'') = Inr val)
         \<or> (\<not> attrTruthy ele ''code''
            \<and> evalJs h ((''content'', JStr (innerHTML h ele)) # window w) (innerHTML h ele) = Inr val)"
  shows "codeAtr h w ele =
           Inr (w, setInnerHTML h ele
                     (if truthy val then toStr val
                      else if val = JNum 0 \<or> val = JBool False \<or> val = JStr [] then ''0''
                      else []))"
  using assms by (auto simp: codeAtr_def Let_def domString_codeResult)

text \<open>Both branches on the example host: \<open>code="1+2"\<close> renders \<open>3\<close>, and an empty \<open>code\<close>
  attribute on an empty element evaluates the empty text to \<open>undefined\<close> and renders
  nothing.\<close>

theorem codeAtr_renders_witness:
  "codeAtr demoHost emptyWorld (Element ''p'' [(''code'', ''1+2'')] [] [TextNode ''old''])
     = Inr (emptyWorld, Element ''p'' [(''code'', ''1+2'')] [] [TextNode ''3''])
   \<and> codeAtr demoHost emptyWorld (Element ''p'' [(''code'', [])] [] [])
     = Inr (emptyWorld, Element ''p'' [(''code'', [])] [] [])"
proof -
  have a: "attrTruthy (Element ''p'' [(''code'', ''1+2'')] [] [TextNode ''old'']) ''code''
        \<and> evalAttr demoHost (window emptyWorld)
              (getAttribute (Element ''p'' [(''code'', ''1+2'')] [] [TextNode ''old'']) ''code'')
            = Inr (JNum 3)"
    by (simp add: attrTruthy_def evalAttr_def demoHost_def demoEval_def)
  have b: "\<not> attrTruthy (Element ''p'' [(''code'', [])] [] []) ''code''
        \<and> evalJs demoHost ((''content'', JStr (innerHTML demoHost (Element ''p'' [(''code'', [])] [] [])))
                # window emptyWorld) (innerHTML demoHost (Element ''p'' [(''code'', [])] [] []))
            = Inr JUndefined"
    by (simp add: attrTruthy_def demoHost_def demoEval_def)
  show ?thesis
    using codeAtr_renders [of _ demoHost emptyWorld "JNum 3", OF disjI1, OF a]
          codeAtr_renders [of _ demoHost emptyWorld JUndefined, OF disjI2, OF b]
    by (simp add: demoHost_def demoParse_def showInt_def showNat.simps digitChar_def bannerOpen_def)
qed

text \<open>The claim as stated fails on \<open>false\<close>: it is falsy and is not zero, yet
  \<open>code="1==2"\<close> renders \<open>0\<close>, not the empty string.\<close>

theorem codeAtr_false_renders_zero:
  "evalJs demoHost (window emptyWorld) ''1==2'' = Inr (JBool False)
   \<and> \<not> truthy (JBool False)
   \<and> JBool False \<noteq> JNum 0
   \<and> codeAtr demoHost emptyWorld (Element ''p'' [(''code'', ''1==2'')] [] [TextNode ''old''])
     = Inr (emptyWorld, Element ''p'' [(''code'', ''1==2'')] [] [TextNode ''0''])"
  by (simp add: codeAtr_def attrTruthy_def evalAttr_def demoHost_def demoEval_def
        domString_def codeResult_def falsyEqZero_def showInt_0 demoParse_def bannerOpen_def)

section \<open>Facts about replaceAll and the span pattern\<close>

lemma getSubstitution_plain:
  "CHR ''$'' \<notin> set rep \<Longrightarrow> getSubstitution m s p rep = rep"
  by (induction m s p rep rule: getSubstitution.induct) auto

lemma replaceScan_plain:
  "CHR ''$'' \<notin> set rep \<Longrightarrow> replaceScan pat rep str pos s = replaceScan pat rep str' pos' s"
proof (induction s arbitrary: pos pos' rule: length_induct)
  case (1 s)
  show ?case
  proof (cases "s = [] \<or> pat = []")
    case True
    then show ?thesis by (auto simp: replaceScan.simps[of pat rep _ _ s])
  next
    case False
    then have len: "length (drop (length pat) s) < length s" "length (tl s) < length s"
      by (cases s; cases pat; simp)+
    show ?thesis
      using 1 False len
      by (subst replaceScan.simps, subst (2) replaceScan.simps)
         (auto simp: getSubstitution_plain)
  qed
qed

lemma replaceAll_nil: "replaceAll pat rep [] = []"
  by (simp add: replaceAll_def replaceScan.simps)

lemma replaceAll_match:
  assumes "CHR ''$'' \<notin> set rep" "pat \<noteq> []"
  shows "replaceAll pat rep (pat @ s) = rep @ replaceAll pat rep s"
  using assms replaceScan_plain[OF assms(1), of pat "pat @ s" "length pat" s s 0]
  by (simp add: replaceAll_def replaceScan.simps[of pat rep "pat @ s" 0 "pat @ s"] getSubstitution_plain)

lemma replaceAll_skip:
  assumes "CHR ''$'' \<notin> set rep" "take (length pat) (c # s) \<noteq> pat"
  shows "replaceAll pat rep (c # s) = c # replaceAll pat rep s"
proof (cases "pat = []")
  case True
  then show ?thesis using assms by simp
next
  case False
  then show ?thesis
    using assms replaceScan_plain[OF assms(1), of pat "c # s" "Suc 0" s s 0]
    by (simp add: replaceAll_def replaceScan.simps[of pat rep "c # s" 0 "c # s"])
qed

lemma replaceAll_two:
  assumes "CHR ''$'' \<notin> set rep" "x \<noteq> y"
  shows "replaceAll [x, y] rep (a @ [x, y] @ b)
         = replaceAll [x, y] rep a @ rep @ replaceAll [x, y] rep b"
proof (induction a rule: length_induct)
  case (1 a)
  show ?case
  proof (cases a)
    case Nil
    then show ?thesis using replaceAll_match[OF assms(1), of "[x, y]" b]
      by (simp add: replaceAll_nil)
  next
    case (Cons c a')
    show ?thesis
    proof (cases "take 2 (c # a' @ [x, y] @ b) = [x, y]")
      case True
      then obtain a'' where a': "a' = y # a''" and c: "c = x"
        using assms(2) by (cases a') auto
      have "replaceAll [x, y] rep (a'' @ [x, y] @ b)
            = replaceAll [x, y] rep a'' @ rep @ replaceAll [x, y] rep b"
        using 1 Cons a' by simp
      then show ?thesis
        using replaceAll_match[OF assms(1), of "[x, y]" "a'' @ [x, y] @ b"]
              replaceAll_match[OF assms(1), of "[x, y]" "a''"]
        by (simp add: Cons a' c)
    next
      case False
      then have nm: "take 2 (c # a') \<noteq> [x, y]"
        by (cases a') auto
      have "replaceAll [x, y] rep (a' @ [x, y] @ b)
            = replaceAll [x, y] rep a' @ rep @ replaceAll [x, y] rep b"
        using 1 Cons by simp
      then show ?thesis
        using replaceAll_skip[OF assms(1), of "[x, y]" c "a' @ [x, y] @ b"]
              replaceAll_skip[OF assms(1), of "[x, y]" c a'] False nm
        by (simp add: Cons)
    qed
  qed
qed

lemma replaceAll_absent:
  assumes "CHR ''$'' \<notin> set rep" "\<not> sublist pat s"
  shows "replaceAll pat rep s = s"
  using assms(2)
proof (induction s)
  case Nil
  then show ?case by (simp add: replaceAll_nil)
next
  case (Cons c s)
  have "\<not> sublist pat s" using Cons.prems by (meson sublist_Cons_right)
  moreover have "take (length pat) (c # s) \<noteq> pat"
  proof
    assume "take (length pat) (c # s) = pat"
    then have "prefix pat (c # s)" by (metis take_is_prefix)
    then show False using Cons.prems by (meson prefix_imp_sublist)
  qed
  ultimately show ?case using Cons.IH replaceAll_skip[OF assms(1)] by simp
qed

lemma replaceAll_substAll:
  assumes "CHR ''$'' \<notin> set rep"
  shows "replaceAll pat rep s = substAll pat rep s"
proof (induction s rule: length_induct)
  case (1 s)
  show ?case
  proof (cases "s = [] \<or> pat = []")
    case True
    then show ?thesis
      by (auto simp: replaceAll_def replaceScan.simps[of pat rep _ _ s] substAll.simps[of pat rep s])
  next
    case False
    then obtain c s' where s: "s = c # s'" by (cases s) auto
    show ?thesis
    proof (cases "take (length pat) s = pat")
      case True
      then have sp: "s = pat @ drop (length pat) s" by (metis append_take_drop_id)
      have "length (drop (length pat) s) < length s" using False by (cases pat) auto
      then have ih: "replaceAll pat rep (drop (length pat) s) = substAll pat rep (drop (length pat) s)"
        using 1 by blast
      have "replaceAll pat rep s = rep @ replaceAll pat rep (drop (length pat) s)"
        using replaceAll_match[OF assms, of pat "drop (length pat) s"] False sp by simp
      then show ?thesis
        using ih True False by (subst substAll.simps) simp
    next
      case nm: False
      have ih: "replaceAll pat rep s' = substAll pat rep s'" using 1 s by simp
      have "replaceAll pat rep s = c # replaceAll pat rep s'"
        using replaceAll_skip[OF assms, of pat c s'] nm s by simp
      then show ?thesis
        using ih nm False s by (subst substAll.simps) simp
    qed
  qed
qed

lemma matchSpan_span:
  assumes "body \<noteq> []" "CHR ''}'' \<notin> set body" "CHR ''/'' \<notin> set body"
  shows "matchSpan (''{{{'' @ body @ ''}}}'' @ rest) = Some (body, rest)"
proof -
  have "takeWhile (\<lambda>c. c \<noteq> CHR ''/'' \<and> c \<noteq> CHR ''}'') (body @ ''}}}'' @ rest) = body"
    using assms by (subst takeWhile_append2) auto
  moreover have "drop (3 + length body) (''{{{'' @ body @ ''}}}'' @ rest) = ''}}}'' @ rest"
    by (simp add: numeral_3_eq_3)
  ultimately show ?thesis using assms by (simp add: matchSpan_def Let_def)
qed

lemma matchSpan_sound:
  assumes "matchSpan s = Some (b, r)"
  shows "s = ''{{{'' @ b @ ''}}}'' @ r \<and> b \<noteq> [] \<and> CHR ''}'' \<notin> set b"
proof -
  let ?P = "\<lambda>c. c \<noteq> CHR ''/'' \<and> c \<noteq> CHR ''}''"
  from assms have t: "take 3 s = ''{{{''"
    and b: "b = takeWhile ?P (drop 3 s)" and ne: "b \<noteq> []"
    and t2: "take 3 (drop (3 + length b) s) = ''}}}''" and r: "r = drop 3 (drop (3 + length b) s)"
    by (auto simp: matchSpan_def Let_def split: if_splits)
  have "drop 3 s = b @ drop (length b) (drop 3 s)"
    using b by (metis append_take_drop_id takeWhile_eq_take)
  moreover have "drop (length b) (drop 3 s) = ''}}}'' @ r"
    using t2 r by (metis add.commute append_take_drop_id drop_drop)
  moreover have "s = ''{{{'' @ drop 3 s" using t by (metis append_take_drop_id)
  ultimately have "s = ''{{{'' @ b @ ''}}}'' @ r" by metis
  moreover have "CHR ''}'' \<notin> set b" using b by (metis (mono_tags, lifting) set_takeWhileD)
  ultimately show ?thesis using ne by blast
qed


section \<open>Expression substitution\<close>

lemma insideScan_nil: "insideScan h sc [] = Inr []"
  by (simp add: insideScan.simps)

lemma insideScan_span:
  assumes "body \<noteq> []" "CHR ''}'' \<notin> set body" "CHR ''/'' \<notin> set body"
  shows "insideScan h sc (''{{{'' @ body @ ''}}}'' @ rest) =
           (case evalJs h ((''f'', JStr (''{{{'' @ body @ ''}}}'')) # sc) body of
              Inl e \<Rightarrow> Inl e
            | Inr v \<Rightarrow> (case insideScan h sc rest of
                          Inl e \<Rightarrow> Inl e
                        | Inr t \<Rightarrow> Inr (toStr v @ t)))"
  using matchSpan_span[OF assms, of rest]
  by (subst insideScan.simps) simp

lemma insideScan_skip:
  assumes "matchSpan (c # m) = None"
  shows "insideScan h sc (c # m) =
           (case insideScan h sc m of Inl e \<Rightarrow> Inl e | Inr t \<Rightarrow> Inr (c # t))"
  using assms by (subst insideScan.simps) (simp split: sum.splits)

lemma specSpan_span:
  assumes "body \<noteq> []" "CHR ''}'' \<notin> set body"
  shows "specSpan (''{{{'' @ body @ ''}}}'' @ rest) = Some (body, rest)"
proof -
  have "takeWhile (\<lambda>c. c \<noteq> CHR ''}'') (body @ ''}}}'' @ rest) = body"
    using assms by (subst takeWhile_append2) auto
  moreover have "drop (3 + length body) (''{{{'' @ body @ ''}}}'' @ rest) = ''}}}'' @ rest"
    by (simp add: numeral_3_eq_3)
  ultimately show ?thesis using assms by (simp add: specSpan_def Let_def)
qed

lemma specSpan_sound:
  assumes "specSpan s = Some (b, r)"
  shows "s = ''{{{'' @ b @ ''}}}'' @ r \<and> b \<noteq> [] \<and> CHR ''}'' \<notin> set b"
proof -
  let ?P = "\<lambda>c. c \<noteq> CHR ''}''"
  from assms have t: "take 3 s = ''{{{''"
    and b: "b = takeWhile ?P (drop 3 s)" and ne: "b \<noteq> []"
    and t2: "take 3 (drop (3 + length b) s) = ''}}}''" and r: "r = drop 3 (drop (3 + length b) s)"
    by (auto simp: specSpan_def Let_def split: if_splits)
  have "drop 3 s = b @ drop (length b) (drop 3 s)"
    using b by (metis append_take_drop_id takeWhile_eq_take)
  moreover have "drop (length b) (drop 3 s) = ''}}}'' @ r"
    using t2 r by (metis add.commute append_take_drop_id drop_drop)
  moreover have "s = ''{{{'' @ drop 3 s" using t by (metis append_take_drop_id)
  ultimately have "s = ''{{{'' @ b @ ''}}}'' @ r" by metis
  moreover have "CHR ''}'' \<notin> set b" using b by (metis (mono_tags, lifting) set_takeWhileD)
  ultimately show ?thesis using ne by blast
qed

lemma matchSpan_specSpan:
  assumes "matchSpan s = Some (b, r)"
  shows "specSpan s = Some (b, r)"
proof -
  have "s = ''{{{'' @ b @ ''}}}'' @ r" "b \<noteq> []" "CHR ''}'' \<notin> set b"
    using matchSpan_sound[OF assms] by auto
  then show ?thesis using specSpan_span[of b r] by simp
qed

lemma specSpan_matchSpan:
  assumes "specSpan s = Some (b, r)" "CHR ''/'' \<notin> set b"
  shows "matchSpan s = Some (b, r)"
proof -
  have "s = ''{{{'' @ b @ ''}}}'' @ r" "b \<noteq> []" "CHR ''}'' \<notin> set b"
    using specSpan_sound[OF assms(1)] by auto
  then show ?thesis using matchSpan_span[of b r] assms(2) by simp
qed

lemma slashFreeSpans_suffix:
  assumes "slashFreeSpans s" "suffix t s"
  shows "slashFreeSpans t"
proof -
  have "set (suffixes t) \<subseteq> set (suffixes s)"
    using assms(2) by (auto simp: in_set_suffixes dest: suffix_order.trans)
  then show ?thesis using assms(1) by (auto simp: slashFreeSpans_def list_all_iff)
qed

lemma insideScan_specScan:
  "slashFreeSpans s \<Longrightarrow> insideScan h sc s = specScan h sc s"
proof (induction s rule: length_induct)
  case (1 s)
  show ?case
  proof (cases "s = []")
    case True
    then show ?thesis by (simp add: insideScan.simps specScan.simps)
  next
    case False
    have self: "case specSpan s of Some (body, rest) \<Rightarrow> CHR ''/'' \<notin> set body | None \<Rightarrow> True"
      using "1.prems" by (simp add: slashFreeSpans_def list_all_iff in_set_suffixes)
    show ?thesis
    proof (cases "specSpan s")
      case None
      then have m: "matchSpan s = None"
        using matchSpan_specSpan[of s] by (cases "matchSpan s") auto
      have "suffix (tl s) s" using False by (metis list.collapse suffix_ConsI suffix_order.refl)
      then have "slashFreeSpans (tl s)" using slashFreeSpans_suffix[OF "1.prems"] by blast
      moreover have "length (tl s) < length s" using False by (cases s) auto
      ultimately have "insideScan h sc (tl s) = specScan h sc (tl s)" using "1.IH" by blast
      then show ?thesis
        using False None m by (subst insideScan.simps, subst specScan.simps) (simp split: sum.splits)
    next
      case (Some br)
      obtain b r where br: "br = (b, r)" by (cases br) auto
      have ns: "CHR ''/'' \<notin> set b" using self Some br by simp
      have m: "matchSpan s = Some (b, r)" using specSpan_matchSpan[of s b r] Some br ns by simp
      have sd: "s = ''{{{'' @ b @ ''}}}'' @ r" using specSpan_sound[of s b r] Some br by simp
      have "suffix r s" by (subst sd) (simp add: suffix_def)
      then have "slashFreeSpans r" using slashFreeSpans_suffix[OF "1.prems"] by blast
      moreover have "length r < length s" using specSpan_shorter[of s b r] Some br by simp
      ultimately have "insideScan h sc r = specScan h sc r" using "1.IH" by blast
      then show ?thesis
        using False Some br m by (subst insideScan.simps, subst specScan.simps) (simp split: sum.splits)
    qed
  qed
qed

lemma insideAtr_pipeline:
  "insideAtr h w (Element t a s ks) =
     (case insideScan h (window w)
             (serializeHtml h (parseHtml h
                (replaceAll '')_'' ''}}}'' (replaceAll ''_('' ''{{{'' (serializeHtml h ks))))) of
        Inl err \<Rightarrow> Inl (err, w)
      | Inr markup \<Rightarrow> Inr (w, Element t a s (parseHtml h markup)))"
  by (simp add: insideAtr_def Let_def split: sum.splits)

text \<open>
  C5, as amended. \<open>insideAtr\<close> rewrites the serialized content, assigns it, reads the
  content back and scans it, and assigns the outcome of the scan; a throw of an
  evaluation leaves the resolver with the global state unchanged. The first rewriting
  turns every \<open>_(\<close> into three opening braces and the second turns every \<open>)_\<close> that is
  left then into three closing braces: each rewriting distributes over an occurrence of
  its pattern and leaves a text without the pattern as it is. On a text none of whose
  spans has a slash in its body, the scan is the scan of the specification: from the
  left, every span of three opening braces, a body that is not empty and holds no
  closing brace, and three closing braces is replaced by the string form of the
  evaluated body, and every other character is kept. Whatever the scan matches is
  such a span, with a body that is not empty and free of closing braces.
\<close>

theorem insideAtr_substitution:
  "insideAtr h w (Element t a s ks) =
     (case insideScan h (window w)
             (serializeHtml h (parseHtml h
                (replaceAll '')_'' ''}}}'' (replaceAll ''_('' ''{{{'' (serializeHtml h ks))))) of
        Inl err \<Rightarrow> Inl (err, w)
      | Inr markup \<Rightarrow> Inr (w, Element t a s (parseHtml h markup)))
   \<and> replaceAll ''_('' ''{{{'' (u @ ''_('' @ v)
       = replaceAll ''_('' ''{{{'' u @ ''{{{'' @ replaceAll ''_('' ''{{{'' v
   \<and> replaceAll '')_'' ''}}}'' (u @ '')_'' @ v)
       = replaceAll '')_'' ''}}}'' u @ ''}}}'' @ replaceAll '')_'' ''}}}'' v
   \<and> (\<not> sublist ''_('' u \<longrightarrow> replaceAll ''_('' ''{{{'' u = u)
   \<and> (\<not> sublist '')_'' u \<longrightarrow> replaceAll '')_'' ''}}}'' u = u)
   \<and> (body \<noteq> [] \<and> CHR ''}'' \<notin> set body \<and> CHR ''/'' \<notin> set body \<longrightarrow>
        insideScan h sc (''{{{'' @ body @ ''}}}'' @ rest) =
          (case evalJs h ((''f'', JStr (''{{{'' @ body @ ''}}}'')) # sc) body of
             Inl e \<Rightarrow> Inl e
           | Inr val \<Rightarrow> (case insideScan h sc rest of
                           Inl e \<Rightarrow> Inl e
                         | Inr out \<Rightarrow> Inr (toStr val @ out))))
   \<and> (matchSpan (c # m) = None \<longrightarrow>
        insideScan h sc (c # m) =
          (case insideScan h sc m of Inl e \<Rightarrow> Inl e | Inr out \<Rightarrow> Inr (c # out)))
   \<and> insideScan h sc [] = Inr []
   \<and> (matchSpan m = Some (b, r) \<longrightarrow>
        m = ''{{{'' @ b @ ''}}}'' @ r \<and> b \<noteq> [] \<and> CHR ''}'' \<notin> set b)
   \<and> (slashFreeSpans mk \<longrightarrow> insideScan h sc mk = specScan h sc mk)
   \<and> (slashFreeSpans (serializeHtml h (parseHtml h
          (replaceAll '')_'' ''}}}'' (replaceAll ''_('' ''{{{'' (serializeHtml h ks))))) \<longrightarrow>
        insideAtr h w (Element t a s ks) =
          (case specScan h (window w)
                  (serializeHtml h (parseHtml h
                     (replaceAll '')_'' ''}}}'' (replaceAll ''_('' ''{{{'' (serializeHtml h ks))))) of
             Inl err \<Rightarrow> Inl (err, w)
           | Inr markup \<Rightarrow> Inr (w, Element t a s (parseHtml h markup))))
   \<and> (specSpan m = Some (b, r) \<longleftrightarrow>
        m = ''{{{'' @ b @ ''}}}'' @ r \<and> b \<noteq> [] \<and> CHR ''}'' \<notin> set b)"
proof -
  have two1: "replaceAll ''_('' ''{{{'' (u @ ''_('' @ v)
       = replaceAll ''_('' ''{{{'' u @ ''{{{'' @ replaceAll ''_('' ''{{{'' v"
    using replaceAll_two[of "''{{{''" "CHR ''_''" "CHR ''(''" u v] by simp
  have two2: "replaceAll '')_'' ''}}}'' (u @ '')_'' @ v)
       = replaceAll '')_'' ''}}}'' u @ ''}}}'' @ replaceAll '')_'' ''}}}'' v"
    using replaceAll_two[of "''}}}''" "CHR '')''" "CHR ''_''" u v] by simp
  have ab1: "\<not> sublist ''_('' u \<longrightarrow> replaceAll ''_('' ''{{{'' u = u"
    using replaceAll_absent[of "''{{{''" "''_(''" u] by simp
  have ab2: "\<not> sublist '')_'' u \<longrightarrow> replaceAll '')_'' ''}}}'' u = u"
    using replaceAll_absent[of "''}}}''" "'')_''" u] by simp
  have sp: "slashFreeSpans mk \<longrightarrow> insideScan h sc mk = specScan h sc mk"
    using insideScan_specScan[of mk h sc] by blast
  let ?m0 = "serializeHtml h (parseHtml h
          (replaceAll '')_'' ''}}}'' (replaceAll ''_('' ''{{{'' (serializeHtml h ks))))"
  have at: "slashFreeSpans ?m0 \<longrightarrow>
        insideAtr h w (Element t a s ks) =
          (case specScan h (window w) ?m0 of
             Inl err \<Rightarrow> Inl (err, w)
           | Inr markup \<Rightarrow> Inr (w, Element t a s (parseHtml h markup)))"
    using insideAtr_pipeline[of h w t a s ks] insideScan_specScan[of ?m0 h "window w"]
    by simp
  have ss: "specSpan m = Some (b, r) \<longleftrightarrow>
        m = ''{{{'' @ b @ ''}}}'' @ r \<and> b \<noteq> [] \<and> CHR ''}'' \<notin> set b"
    using specSpan_sound[of m b r] specSpan_span[of b r] by blast
  show ?thesis
    using insideAtr_pipeline[of h w t a s ks] two1 two2 ab1 ab2
      insideScan_span[of body h sc rest] insideScan_skip[of c m h sc]
      insideScan_nil[of h sc] matchSpan_sound[of m b r] sp at ss
    by blast
qed

text \<open>The claim as stated fails on two spans that do not nest and hold no closing
  brace: the body \<open>6/2\<close>, which the example host evaluates to 3, and the empty body both
  stay in the content in their triple-brace form.\<close>

theorem insideAtr_slash_and_empty_span:
  "evalJs demoHost (window emptyWorld) ''6/2'' = Inr (JNum 3)
   \<and> insideAtr demoHost emptyWorld (Element ''p'' [(''inside'', [])] [] [TextNode ''_(6/2)_''])
       = Inr (emptyWorld, Element ''p'' [(''inside'', [])] [] [TextNode ''{{{6/2}}}''])
   \<and> evalJs demoHost (window emptyWorld) [] = Inr JUndefined
   \<and> insideAtr demoHost emptyWorld (Element ''p'' [(''inside'', [])] [] [TextNode ''_()_''])
       = Inr (emptyWorld, Element ''p'' [(''inside'', [])] [] [TextNode ''{{{}}}''])"
  by code_simp


text \<open>The example of the claim on the example host: \<open>_(1+2)_hello\<close> resolves to
  \<open>3hello\<close>, through the two rewritings and one span.\<close>

theorem insideAtr_substitution_witness:
  "insideAtr demoHost emptyWorld (Element ''p'' [(''inside'', [])] [] [TextNode ''_(1+2)_hello''])
     = Inr (emptyWorld, Element ''p'' [(''inside'', [])] [] [TextNode ''3hello''])
   \<and> replaceAll ''_('' ''{{{'' ''_(1+2)_hello'' = ''{{{1+2)_hello''
   \<and> replaceAll '')_'' ''}}}'' ''{{{1+2)_hello'' = ''{{{1+2}}}hello''
   \<and> insideScan demoHost [] ''{{{1+2}}}hello'' = Inr ''3hello''
   \<and> matchSpan ''{{{1+2}}}hello'' = Some (''1+2'', ''hello'')
   \<and> slashFreeSpans ''{{{1+2}}}hello''
   \<and> specScan demoHost [] ''{{{1+2}}}hello'' = Inr ''3hello''"
proof -
  note T = insideAtr_substitution[where h = demoHost and w = emptyWorld and t = "''p''"
      and a = "[(''inside'', [])]" and s = "[]" and ks = "[TextNode ''_(1+2)_hello'']"
      and u = "[]" and v = "''1+2)_hello''" and body = "''1+2''" and sc = "[]"
      and rest = "''hello''" and c = "CHR ''h''" and m = "''{{{1+2}}}hello''"
      and b = "''1+2''" and r = "''hello''" and mk = "''{{{1+2}}}hello''"]
  have ev: "evalJs demoHost [(''f'', JStr ''{{{1+2}}}'')] ''1+2'' = Inr (JNum 3)"
    by code_simp
  have hello: "insideScan demoHost [] ''hello'' = Inr ''hello''"
    by code_simp
  have three: "toStr (JNum 3) = ''3''"
    by code_simp
  have r1: "replaceAll ''_('' ''{{{'' ''1+2)_hello'' = ''1+2)_hello''"
    by code_simp
  have r2: "replaceAll '')_'' ''}}}'' ''{{{1+2)_hello'' = ''{{{1+2}}}hello''"
    by code_simp
  have ms: "matchSpan ''{{{1+2}}}hello'' = Some (''1+2'', ''hello'')"
    by code_simp
  have ser: "serializeHtml demoHost [TextNode ''_(1+2)_hello''] = ''_(1+2)_hello''"
            "serializeHtml demoHost (parseHtml demoHost ''{{{1+2}}}hello'') = ''{{{1+2}}}hello''"
            "parseHtml demoHost ''3hello'' = [TextNode ''3hello'']"
            "window emptyWorld = []"
    by code_simp+
  have scan: "insideScan demoHost [] ''{{{1+2}}}hello'' = Inr ''3hello''"
    using T ev hello three replaceAll_nil by simp
  have first: "replaceAll ''_('' ''{{{'' ''_(1+2)_hello'' = ''{{{1+2)_hello''"
    using T r1 replaceAll_nil by simp
  have "insideAtr demoHost emptyWorld (Element ''p'' [(''inside'', [])] [] [TextNode ''_(1+2)_hello''])
     = Inr (emptyWorld, Element ''p'' [(''inside'', [])] [] [TextNode ''3hello''])"
    using T by (simp only: ser first r2 scan sum.case)
  moreover have sf: "slashFreeSpans ''{{{1+2}}}hello''"
    by code_simp
  moreover have "slashFreeSpans ''{{{1+2}}}hello'' \<longrightarrow>
        insideScan demoHost [] ''{{{1+2}}}hello'' = specScan demoHost [] ''{{{1+2}}}hello''"
    using T by blast
  then have "specScan demoHost [] ''{{{1+2}}}hello'' = Inr ''3hello''"
    using sf scan by simp
  ultimately show ?thesis using first r2 scan ms by simp
qed

section \<open>Facts about decimal numerals and array indices\<close>

lemma upt_10: "[0..<10] = [0, 1, 2, 3, 4, 5, 6, 7, 8, 9::nat]"
  by code_simp

lemma digit_cases:
  assumes "d < (10::nat)"
  shows "d = 0 \<or> d = 1 \<or> d = 2 \<or> d = 3 \<or> d = 4 \<or> d = 5 \<or> d = 6 \<or> d = 7 \<or> d = 8 \<or> d = 9"
proof -
  have "d \<in> set [0..<10]" using assms by simp
  then show ?thesis unfolding upt_10 by simp
qed

lemma digitChar_val: "d < 10 \<Longrightarrow> (of_char (digitChar d) :: nat) = 48 + d"
  using digit_cases[of d] by (auto simp: digitChar_def)

lemma showNat_value:
  "foldl (\<lambda>n c. 10 * n + (of_char c - 48)) 0 (showNat n) = n"
proof (induction n rule: showNat.induct)
  case (1 n)
  show ?case
  proof (cases "n < 10")
    case True
    then show ?thesis by (simp add: showNat.simps[of n] digitChar_val)
  next
    case False
    then show ?thesis
      using 1 by (simp add: showNat.simps[of n] digitChar_val)
  qed
qed

lemma showNat_inj: "showNat a = showNat b \<Longrightarrow> a = b"
  by (metis showNat_value)

lemma digitChar_digit: "d < 10 \<Longrightarrow> digitChar d \<in> set ''0123456789''"
  using digit_cases[of d] by (auto simp: digitChar_def)

lemma showNat_digits: "set (showNat n) \<subseteq> set ''0123456789''"
proof (induction n rule: showNat.induct)
  case (1 n)
  show ?case
  proof (cases "n < 10")
    case True
    then show ?thesis using digitChar_digit[of n] by (simp add: showNat.simps[of n])
  next
    case False
    then show ?thesis using 1 digitChar_digit[of "n mod 10"] by (simp add: showNat.simps[of n])
  qed
qed

lemma showNat_no_dollar: "CHR ''$'' \<notin> set (showNat n)"
  using showNat_digits[of n] by auto

lemma find_eq_upt: "k < n \<Longrightarrow> List.find (\<lambda>i. i = k) [0..<n] = Some k"
proof (induction n)
  case 0
  then show ?case by simp
next
  case (Suc n)
  show ?case
  proof (cases "k < n")
    case True
    then show ?thesis using Suc by (simp add: find_Some_iff nth_append)
         (metis (no_types) add.left_neutral diff_zero length_upt less_Suc_eq nth_append nth_upt)
  next
    case False
    then have "k = n" using Suc.prems by simp
    then show ?thesis by (auto simp: find_Some_iff nth_append intro!: exI[of _ n])
  qed
qed

lemma indexOfKey_showNat: "k < n \<Longrightarrow> indexOfKey (showNat k) n = Some k"
proof -
  assume "k < n"
  moreover have "(\<lambda>i. showNat i = showNat k) = (\<lambda>i. i = k)"
    using showNat_inj by auto
  ultimately show ?thesis by (simp add: indexOfKey_def find_eq_upt)
qed

lemma getProp_index: "k < length xs \<Longrightarrow> getProp (JArr xs) (showNat k) = xs ! k"
proof -
  assume k: "k < length xs"
  have "CHR ''l'' \<notin> set (showNat k)" using showNat_digits[of k] by auto
  then have "showNat k \<noteq> ''length''" by auto
  then show ?thesis using k by (simp add: indexOfKey_showNat)
qed

section \<open>Loop expansion: the copies\<close>

lemma startsIn_Cons:
  "startsIn pat (c # a) b \<longleftrightarrow>
     take (length pat) (c # a @ b) = pat \<or> startsIn pat a b"
proof -
  let ?P = "\<lambda>k. take (length pat) (drop k (c # a @ b)) = pat"
  let ?Q = "\<lambda>k. take (length pat) (drop k (a @ b)) = pat"
  have PQ: "\<And>k. ?P (Suc k) = ?Q k" by simp
  have "(\<exists>k < Suc (length a). ?P k) \<longleftrightarrow> (?P 0 \<or> (\<exists>k < length a. ?P (Suc k)))"
    by (metis less_Suc_eq_0_disj)
  then have "(\<exists>k < Suc (length a). ?P k) \<longleftrightarrow> (?P 0 \<or> (\<exists>k < length a. ?Q k))"
    unfolding PQ .
  moreover have "startsIn pat (c # a) b \<longleftrightarrow> (\<exists>k < Suc (length a). ?P k)"
    unfolding startsIn_def list_ex_iff
    by (auto simp: less_Suc_eq simp del: drop_append take_append upt_Suc)
  moreover have "startsIn pat a b \<longleftrightarrow> (\<exists>k < length a. ?Q k)"
    unfolding startsIn_def list_ex_iff
    by (auto simp del: drop_append take_append)
  ultimately show ?thesis by simp
qed

lemma replaceAll_append_free:
  assumes "CHR ''$'' \<notin> set rep" "\<not> startsIn pat a b"
  shows "replaceAll pat rep (a @ b) = a @ replaceAll pat rep b"
  using assms(2)
proof (induction a)
  case Nil
  then show ?case by simp
next
  case (Cons c a)
  then have nm: "take (length pat) (c # a @ b) \<noteq> pat" and rest: "\<not> startsIn pat a b"
    by (simp_all add: startsIn_Cons)
  show ?case
    using replaceAll_skip[OF assms(1) nm] Cons.IH[OF rest] by simp
qed

lemma setGlobal_twice: "setGlobal k v (setGlobal k v' w) = setGlobal k v w"
  by (simp add: setGlobal_def)

lemma replaceAllVal_plain:
  "(\<forall>src. v \<noteq> JFun src) \<Longrightarrow> replaceAllVal h sc pat v str = Inr (replaceAll pat (toStr v) str)"
  by (cases v) (auto simp: replaceAllVal_def)

lemma loopCopies_Suc:
  "loopCopies h name xs K (Suc k) = loopCopies h name xs K k @ loopCopy h name xs K k"
  by (simp add: loopCopies_def)

lemma loopIters_range:
  fixes K :: "nat \<Rightarrow> node list"
  assumes el: "isElement ele"
    and steps: "\<forall>k. a \<le> k \<and> k < b \<longrightarrow>
        k < length xs
      \<and> fillItems h (loopScope (setGlobal ''result'' (JStr (loopCopies h name xs K k)) w1)
                       (Some name) inA (JArr xs) k)
           (Some name) (JArr xs) k (K k) = Inr (K (Suc k))
      \<and> (\<forall>src. xs ! k \<noteq> JFun src)
      \<and> CHR ''$'' \<notin> set (toStr (xs ! k))
      \<and> \<not> startsIn (''i_'' @ name) (loopCopies h name xs K k) (serializeHtml h (K (Suc k)))
      \<and> \<not> startsIn (''v_'' @ name) (loopCopies h name xs K k)
            (replaceAll (''i_'' @ name) (showNat k) (serializeHtml h (K (Suc k))))"
    and ab: "a \<le> b"
  shows "loopIters h (Some name) inA (JArr xs) [a..<b]
           (setGlobal ''result'' (JStr (loopCopies h name xs K a)) w1,
            setChildNodes ele (K a), loopCopies h name xs K a)
         = Inr (setGlobal ''result'' (JStr (loopCopies h name xs K b)) w1,
                setChildNodes ele (K b), loopCopies h name xs K b)"
  using steps ab
proof (induction "b - a" arbitrary: a)
  case 0
  then show ?case by simp
next
  case (Suc d)
  then have lt: "a < b" by simp
  let ?R = "loopCopies h name xs K a"
  let ?m = "serializeHtml h (K (Suc a))"
  from Suc.prems(1) lt have
        len: "a < length xs"
    and fill: "fillItems h (loopScope (setGlobal ''result'' (JStr ?R) w1) (Some name) inA (JArr xs) a)
           (Some name) (JArr xs) a (K a) = Inr (K (Suc a))"
    and nf: "\<forall>src. xs ! a \<noteq> JFun src"
    and nd: "CHR ''$'' \<notin> set (toStr (xs ! a))"
    and si: "\<not> startsIn (''i_'' @ name) ?R ?m"
    and sv: "\<not> startsIn (''v_'' @ name) ?R (replaceAll (''i_'' @ name) (showNat a) ?m)"
    by auto
  obtain t at st ks where ele: "ele = Element t at st ks"
    using el by (cases ele) auto
  have r2: "replaceAll (''i_'' @ name) (showNat a) (?R @ ?m)
            = ?R @ replaceAll (''i_'' @ name) (showNat a) ?m"
    using replaceAll_append_free[OF showNat_no_dollar si] .
  have r3: "replaceAll (''v_'' @ name) (toStr (xs ! a))
              (?R @ replaceAll (''i_'' @ name) (showNat a) ?m)
            = loopCopies h name xs K (Suc a)"
    using replaceAll_append_free[OF nd sv] by (simp add: loopCopies_Suc loopCopy_def)
  have IH: "loopIters h (Some name) inA (JArr xs) [Suc a..<b]
           (setGlobal ''result'' (JStr (loopCopies h name xs K (Suc a))) w1,
            setChildNodes ele (K (Suc a)), loopCopies h name xs K (Suc a))
         = Inr (setGlobal ''result'' (JStr (loopCopies h name xs K b)) w1,
                setChildNodes ele (K b), loopCopies h name xs K b)"
    using Suc.hyps(1)[of "Suc a"] Suc.hyps(2) Suc.prems lt by auto
  have upt: "[a..<b] = a # [Suc a..<b]" using lt by (simp add: upt_conv_Cons)
  show ?case
    unfolding upt
    using fill IH r2 r3
    by (simp add: ele Let_def attrText_def getProp_index[OF len]
          replaceAllVal_plain[OF nf] setGlobal_twice del: getProp.simps)
qed


text \<open>
  C4, as amended. Let the \<open>in\<close> expression of a loop element with loop name \<open>name\<close>
  evaluate to an array \<open>xs\<close>. \<open>loopEle\<close> runs the indices \<open>0\<close> to \<open>length xs - 1\<close> in
  ascending order, stores the array under the loop name, and replaces the content of
  the element by the concatenation, in index order, of one copy per iteration of the
  content read in that iteration, with every \<open>i_name\<close> replaced by the index and every
  \<open>v_name\<close> by the string form of the indexed item. This holds provided that in every
  iteration \<open>k\<close> the \<open>item\<close> elements are filled without a throw (giving the content
  \<open>K (Suc k)\<close> that the iteration reads), item \<open>k\<close> is not a function and its string form
  holds no dollar sign, and no \<open>i_name\<close> or \<open>v_name\<close> begins inside the markup that the
  earlier iterations have accumulated.
\<close>

theorem loopEle_expansion:
  fixes K :: "nat \<Rightarrow> node list"
  assumes el: "isElement ele"
    and lp: "getAttribute ele ''loop'' = Some name"
    and ev: "evalJs h ([(''_In'', attrVal (getAttribute ele ''in'')), (''_loop'', JStr name)] @ window w)
               ('' new Object('' @ attrText (getAttribute ele ''in'') @ '')'') = Inr (JArr xs)"
    and K0: "K 0 = childNodes ele"
    and steps: "\<forall>k < length xs.
        fillItems h (loopScope (setGlobal ''result'' (JStr (loopCopies h name xs K k))
                                  (setGlobal name (JArr xs) w))
                       (Some name) (getAttribute ele ''in'') (JArr xs) k)
           (Some name) (JArr xs) k (K k) = Inr (K (Suc k))
      \<and> (\<forall>src. xs ! k \<noteq> JFun src)
      \<and> CHR ''$'' \<notin> set (toStr (xs ! k))
      \<and> \<not> startsIn (''i_'' @ name) (loopCopies h name xs K k) (serializeHtml h (K (Suc k)))
      \<and> \<not> startsIn (''v_'' @ name) (loopCopies h name xs K k)
            (replaceAll (''i_'' @ name) (showNat k) (serializeHtml h (K (Suc k))))"
  shows "loopEle h w ele =
           Inr (setGlobal ''result'' (JStr (loopCopies h name xs K (length xs)))
                  (setGlobal name (JArr xs) w),
                setInnerHTML h ele (loopCopies h name xs K (length xs)))"
proof -
  obtain t at st ks where ele: "ele = Element t at st ks"
    using el by (cases ele) auto
  have c0: "loopCopies h name xs K 0 = []" by (simp add: loopCopies_def)
  have "loopIters h (Some name) (getAttribute ele ''in'') (JArr xs) [0..<length xs]
           (setGlobal ''result'' (JStr (loopCopies h name xs K 0)) (setGlobal name (JArr xs) w),
            setChildNodes ele (K 0), loopCopies h name xs K 0)
         = Inr (setGlobal ''result'' (JStr (loopCopies h name xs K (length xs)))
                  (setGlobal name (JArr xs) w),
                setChildNodes ele (K (length xs)), loopCopies h name xs K (length xs))"
    using loopIters_range[OF el, of 0 "length xs" xs h name K "setGlobal name (JArr xs) w"
            "getAttribute ele ''in''"] steps
    by simp
  then show ?thesis
    using lp ev K0
    by (simp add: loopEle_def Let_def c0 ele attrVal_def attrText_def newObject_def loopBound_def)
qed

text \<open>The example of the claim on the example host: the array \<open>['red','blue']\<close> under
  the name \<open>color\<close> gives two copies, with \<open>i_color\<close> replaced by 0 then 1 and \<open>v_color\<close>
  by red then blue.\<close>

theorem loopEle_expansion_witness:
  "loopEle demoHost emptyWorld
     (Element ''div'' [(''loop'', ''color''), (''in'', ''['red','blue']'')] []
        [TextNode ''i_color:v_color;''])
   = Inr (\<lparr>window = [(''color'', JArr [JStr ''red'', JStr ''blue'']),
                      (''result'', JStr ''0:red;1:blue;'')],
           allDataElements = [], getTempsElements = [], getTempsElementsUI = []\<rparr>,
          Element ''div'' [(''loop'', ''color''), (''in'', ''['red','blue']'')] []
            [TextNode ''0:red;1:blue;''])"
proof -
  let ?ele = "Element ''div'' [(''loop'', ''color''), (''in'', ''['red','blue']'')] []
                [TextNode ''i_color:v_color;'']"
  let ?xs = "[JStr ''red'', JStr ''blue'']"
  let ?K = "\<lambda>k::nat. [TextNode ''i_color:v_color;'']"
  have el: "isElement ?ele" by simp
  have lp: "getAttribute ?ele ''loop'' = Some ''color''" by simp
  have ev: "evalJs demoHost ([(''_In'', attrVal (getAttribute ?ele ''in'')), (''_loop'', JStr ''color'')]
                @ window emptyWorld)
               ('' new Object('' @ attrText (getAttribute ?ele ''in'') @ '')'') = Inr (JArr ?xs)"
    by code_simp
  have K0: "?K 0 = childNodes ?ele" by simp
  have c0: "loopCopies demoHost ''color'' ?xs ?K 0 = []" by code_simp
  have c1: "loopCopies demoHost ''color'' ?xs ?K 1 = ''0:red;''" by code_simp
  have c2: "loopCopies demoHost ''color'' ?xs ?K 2 = ''0:red;1:blue;''" by code_simp
  have ser: "serializeHtml demoHost [TextNode ''i_color:v_color;''] = ''i_color:v_color;''"
    by code_simp
  have f0: "fillItems demoHost (loopScope (setGlobal ''result'' (JStr [])
                                  (setGlobal ''color'' (JArr ?xs) emptyWorld))
                       (Some ''color'') (getAttribute ?ele ''in'') (JArr ?xs) 0)
           (Some ''color'') (JArr ?xs) 0 [TextNode ''i_color:v_color;'']
            = Inr [TextNode ''i_color:v_color;'']"
    by simp
  have f1: "fillItems demoHost (loopScope (setGlobal ''result'' (JStr ''0:red;'')
                                  (setGlobal ''color'' (JArr ?xs) emptyWorld))
                       (Some ''color'') (getAttribute ?ele ''in'') (JArr ?xs) 1)
           (Some ''color'') (JArr ?xs) 1 [TextNode ''i_color:v_color;'']
            = Inr [TextNode ''i_color:v_color;'']"
    by simp
  have s0: "\<not> startsIn ''i_color'' [] ''i_color:v_color;''"
           "\<not> startsIn ''v_color'' [] (replaceAll ''i_color'' (showNat 0) ''i_color:v_color;'')"
    by (simp_all add: startsIn_def)
  have s1: "\<not> startsIn ''i_color'' ''0:red;'' ''i_color:v_color;''"
           "\<not> startsIn ''v_color'' ''0:red;'' (replaceAll ''i_color'' (showNat 1) ''i_color:v_color;'')"
    by code_simp+
  have steps: "\<forall>k < length ?xs.
        fillItems demoHost (loopScope (setGlobal ''result'' (JStr (loopCopies demoHost ''color'' ?xs ?K k))
                                  (setGlobal ''color'' (JArr ?xs) emptyWorld))
                       (Some ''color'') (getAttribute ?ele ''in'') (JArr ?xs) k)
           (Some ''color'') (JArr ?xs) k (?K k) = Inr (?K (Suc k))
      \<and> (\<forall>src. ?xs ! k \<noteq> JFun src)
      \<and> CHR ''$'' \<notin> set (toStr (?xs ! k))
      \<and> \<not> startsIn (''i_'' @ ''color'') (loopCopies demoHost ''color'' ?xs ?K k)
            (serializeHtml demoHost (?K (Suc k)))
      \<and> \<not> startsIn (''v_'' @ ''color'') (loopCopies demoHost ''color'' ?xs ?K k)
            (replaceAll (''i_'' @ ''color'') (showNat k) (serializeHtml demoHost (?K (Suc k))))"
  proof (intro allI impI)
    fix k assume "k < length ?xs"
    then have "k = 0 \<or> k = 1" by auto
    then show "fillItems demoHost (loopScope (setGlobal ''result'' (JStr (loopCopies demoHost ''color'' ?xs ?K k))
                                  (setGlobal ''color'' (JArr ?xs) emptyWorld))
                       (Some ''color'') (getAttribute ?ele ''in'') (JArr ?xs) k)
           (Some ''color'') (JArr ?xs) k (?K k) = Inr (?K (Suc k))
      \<and> (\<forall>src. ?xs ! k \<noteq> JFun src)
      \<and> CHR ''$'' \<notin> set (toStr (?xs ! k))
      \<and> \<not> startsIn (''i_'' @ ''color'') (loopCopies demoHost ''color'' ?xs ?K k)
            (serializeHtml demoHost (?K (Suc k)))
      \<and> \<not> startsIn (''v_'' @ ''color'') (loopCopies demoHost ''color'' ?xs ?K k)
            (replaceAll (''i_'' @ ''color'') (showNat k) (serializeHtml demoHost (?K (Suc k))))"
    proof
      assume "k = 0"
      then show ?thesis using f0 s0 by (simp add: c0 ser)
    next
      assume "k = 1"
      then show ?thesis using f1 s1 by (simp add: c1[unfolded One_nat_def] ser)
    qed
  qed
  have fin: "setInnerHTML demoHost ?ele ''0:red;1:blue;''
             = Element ''div'' [(''loop'', ''color''), (''in'', ''['red','blue']'')] []
                 [TextNode ''0:red;1:blue;'']"
    by code_simp
  have wd: "setGlobal ''result'' (JStr ''0:red;1:blue;'') (setGlobal ''color'' (JArr ?xs) emptyWorld)
            = \<lparr>window = [(''color'', JArr ?xs), (''result'', JStr ''0:red;1:blue;'')],
               allDataElements = [], getTempsElements = [], getTempsElementsUI = []\<rparr>"
    by (simp add: setGlobal_def emptyWorld_def)
  have two: "length ?xs = 2" by simp
  show ?thesis
    using loopEle_expansion[OF el lp ev K0 steps]
    unfolding two c2 fin wd .
qed

text \<open>The claim as stated fails on an item with a dollar sign: the replacement text
  of \<open>replaceAll\<close> reads \<open>$$\<close> as one dollar sign, so for the array \<open>['$$']\<close> the token
  \<open>v_p\<close> is replaced by \<open>$\<close>, not by the item.\<close>

theorem loopEle_dollar_item:
  "evalJs demoHost ([(''_In'', JStr ''['$$']''), (''_loop'', JStr ''p'')] @ window emptyWorld)
     '' new Object(['$$'])'' = Inr (JArr [JStr ''$$''])
   \<and> loopEle demoHost emptyWorld
       (Element ''div'' [(''loop'', ''p''), (''in'', ''['$$']'')] [] [TextNode ''v_p''])
     = Inr (\<lparr>window = [(''p'', JArr [JStr ''$$'']), (''result'', JStr ''$'')],
             allDataElements = [], getTempsElements = [], getTempsElementsUI = []\<rparr>,
            Element ''div'' [(''loop'', ''p''), (''in'', ''['$$']'')] [] [TextNode ''$''])"
  by code_simp

section \<open>The resolvers keep the tag name and the attributes\<close>

lemma sameTag_refl [simp]: "sameTag c c"
  by (simp add: sameTag_def)

lemma sameTag_trans: "sameTag a b \<Longrightarrow> sameTag b c \<Longrightarrow> sameTag a c"
  by (simp add: sameTag_def)

lemma sameTag_setInnerHTML [simp]: "sameTag c (setInnerHTML h c m)"
  by (cases c) (simp_all add: sameTag_def)

lemma sameTag_setChildNodes [simp]: "sameTag c (setChildNodes c ks)"
  by (cases c) (simp_all add: sameTag_def)

lemma sameTag_setStyle [simp]: "sameTag c (setStyle c k v)"
  by (cases c) (simp_all add: sameTag_def)

lemma sameTag_setInnerHTML2: "sameTag c c' \<Longrightarrow> sameTag c (setInnerHTML h c' m)"
  using sameTag_trans sameTag_setInnerHTML by blast

lemma getAttribute_attributesOf: "getAttribute c n = map_of (attributesOf c) n"
  by (cases c) simp_all

lemma sameTag_trigger: "sameTag c c' \<Longrightarrow> trigger r c' = trigger r c"
  by (cases r) (simp_all add: sameTag_def attrTruthy_def getAttribute_attributesOf)

lemma replaceKeys_sameTag:
  "replaceKeys h sc data keys e = Inr e' \<Longrightarrow> sameTag e e'"
proof (induction keys arbitrary: e)
  case Nil
  then show ?case by simp
next
  case (Cons key keys)
  then show ?case
    by (auto split: if_splits sum.splits intro: sameTag_trans[OF sameTag_setInnerHTML])
qed

lemma replaceKeysAnon_sameTag:
  "replaceKeysAnon h sc data keys e = Inr e' \<Longrightarrow> sameTag e e'"
proof (induction keys arbitrary: e)
  case Nil
  then show ?case by simp
next
  case (Cons key keys)
  then show ?case
    by (auto split: jsval.splits sum.splits intro: sameTag_trans[OF sameTag_setInnerHTML])
qed

lemma dataAtr_sameTag: "dataAtr h w e = Inr (w', e') \<Longrightarrow> sameTag e e'"
  by (auto simp: dataAtr_def Let_def split: if_splits sum.splits
           dest: replaceKeys_sameTag replaceKeysAnon_sameTag)

lemma loopIters_sameTag:
  "loopIters h lp inA arr idxs (w, e, r) = Inr (w', e', r') \<Longrightarrow> sameTag e e'"
proof (induction idxs arbitrary: w e r)
  case Nil
  then show ?case by simp
next
  case (Cons i idxs)
  then show ?case
    by (auto simp: Let_def split: sum.splits intro: sameTag_trans[OF sameTag_setChildNodes])
qed

lemma loopEle_sameTag: "loopEle h w e = Inr (w', e') \<Longrightarrow> sameTag e e'"
  by (auto simp: loopEle_def Let_def split: sum.splits
           dest!: loopIters_sameTag intro: sameTag_setInnerHTML2)

lemma codeAtr_sameTag: "codeAtr h w e = Inr (w', e') \<Longrightarrow> sameTag e e'"
  by (auto simp: codeAtr_def Let_def split: if_splits sum.splits)

lemma textAtr_sameTag: "textAtr h w e = Inr (w', e') \<Longrightarrow> sameTag e e'"
  by (auto simp: textAtr_def Let_def)

lemma ifAtr_sameTag: "ifAtr h w e = Inr (w', e') \<Longrightarrow> sameTag e e'"
  by (auto simp: ifAtr_def Let_def split: if_splits sum.splits)

lemma fold_setStyle_sameTag:
  "sameTag e (fold (\<lambda>kv e. setStyle e (fst kv) (domString (snd kv))) kvs e)"
proof (induction kvs arbitrary: e)
  case Nil
  then show ?case by simp
next
  case (Cons kv kvs)
  have "sameTag (setStyle e (fst kv) (domString (snd kv)))
          (fold (\<lambda>kv e. setStyle e (fst kv) (domString (snd kv))) kvs
             (setStyle e (fst kv) (domString (snd kv))))"
    by (rule Cons.IH)
  then show ?case using sameTag_trans[OF sameTag_setStyle] by simp
qed

lemma styleAtr_sameTag: "styleAtr h w e = Inr (w', e') \<Longrightarrow> sameTag e e'"
  by (auto simp: styleAtr_def assignStyle_def Let_def fold_setStyle_sameTag
           split: sum.splits jsval.splits option.splits)

lemma insideAtr_sameTag: "insideAtr h w e = Inr (w', e') \<Longrightarrow> sameTag e e'"
  by (auto simp: insideAtr_def Let_def split: sum.splits
           intro: sameTag_setInnerHTML2)

lemma expandTemps_sameTag:
  "expandTemps h n temps w e = Inr (w', e') \<Longrightarrow> sameTag e e'"
proof (induction temps arbitrary: w e)
  case Nil
  then show ?case by simp
next
  case (Cons t temps)
  show ?case
  proof (cases "getAttribute t ''name'' = Some n")
    case False
    then show ?thesis using Cons by simp
  next
    case True
    then obtain clone0 clone w1 e1 where
      d: "dataAtr h w (setInnerHTML h e (replaceAll ''_children_'' (innerHTML h e) (innerHTML h clone)))
          = Inr (w1, e1)"
      and r: "expandTemps h n temps w1 e1 = Inr (w', e')"
      using Cons.prems by (auto split: option.splits sum.splits)
    have "sameTag e e1"
      using dataAtr_sameTag[OF d] sameTag_trans[OF sameTag_setInnerHTML] by blast
    then show ?thesis using Cons.IH[OF r] sameTag_trans by blast
  qed
qed

lemma getTemp_sameTag: "getTemp h w e = Inr (w', e') \<Longrightarrow> sameTag e e'"
  by (auto simp: getTemp_def Let_def dest: expandTemps_sameTag)

lemma run_sameTag: "run h r w e = Inr (w', e') \<Longrightarrow> sameTag e e'"
  by (cases r)
     (auto dest: loopEle_sameTag dataAtr_sameTag codeAtr_sameTag ifAtr_sameTag
        styleAtr_sameTag insideAtr_sameTag getTemp_sameTag textAtr_sameTag)


section \<open>The order of the resolvers\<close>

lemma tryBlock_foldl:
  "tryBlock h w child = foldl (\<lambda>st r. step h r st) ([], Inr (w, child)) resolverOrder"
  by (simp add: tryBlock_def resolverOrder_def)

lemma foldl_step_Inl:
  "foldl (\<lambda>st r. step h r st) (tr, Inl x) rs = (tr, Inl x)"
  by (induction rs) auto




lemma steps_invariant:
  "foldl (\<lambda>st r. step h r st) ([], Inr (w, c0)) rs = (tr, res) \<Longrightarrow>
     prefix tr (filter (\<lambda>r. trigger r c0) rs)
     \<and> (\<forall>w' c'. res = Inr (w', c') \<longrightarrow> sameTag c0 c' \<and> tr = filter (\<lambda>r. trigger r c0) rs)
     \<and> (\<forall>err w' c'. res = Inl (err, w', c') \<longrightarrow> sameTag c0 c')"
proof (induction rs arbitrary: tr res rule: rev_induct)
  case Nil
  then show ?case by auto
next
  case (snoc r rs)
  obtain tr0 res0 where st0: "foldl (\<lambda>st r. step h r st) ([], Inr (w, c0)) rs = (tr0, res0)"
    by (cases "foldl (\<lambda>st r. step h r st) ([], Inr (w, c0)) rs") auto
  note IH = snoc.IH[OF st0]
  have stp: "step h r (tr0, res0) = (tr, res)" using snoc.prems st0 by simp
  show ?case
  proof (cases res0)
    case (Inl x)
    then have "tr = tr0" "res = Inl x" using stp by auto
    then show ?thesis using IH Inl by auto
  next
    case (Inr wc)
    obtain w1 c1 where wc: "wc = (w1, c1)" by (cases wc) auto
    have st: "sameTag c0 c1" and tr0: "tr0 = filter (\<lambda>r. trigger r c0) rs"
      using IH Inr wc by auto
    have trg: "trigger r c1 = trigger r c0" using sameTag_trigger[OF st] .
    show ?thesis
    proof (cases "trigger r c0")
      case False
      then show ?thesis using stp Inr wc trg st tr0 by auto
    next
      case True
      then have tr: "tr = tr0 @ [r]"
        and res: "res = (case run h r w1 c1 of Inl (err, w') \<Rightarrow> Inl (err, w', c1) | Inr wc \<Rightarrow> Inr wc)"
        using stp Inr wc trg by auto
      have "\<And>w' c'. res = Inr (w', c') \<Longrightarrow> sameTag c0 c'"
        using res run_sameTag[of h r w1 c1] sameTag_trans[OF st]
        by (auto split: sum.splits prod.splits)
      moreover have "\<And>err w' c'. res = Inl (err, w', c') \<Longrightarrow> sameTag c0 c'"
        using res st by (auto split: sum.splits prod.splits)
      ultimately show ?thesis using tr tr0 True by auto
    qed
  qed
qed



section \<open>Attributes with an empty value\<close>

lemma step_trace:
  "fst (step h r st) = fst st \<or> fst (step h r st) = fst st @ [r]"
  by (cases st; cases "snd st") auto

lemma foldl_step_trace:
  "prefix (fst st) (fst (foldl (\<lambda>st r. step h r st) st rs))
   \<and> set (fst (foldl (\<lambda>st r. step h r st) st rs)) \<subseteq> set (fst st) \<union> set rs"
proof (induction rs arbitrary: st)
  case Nil
  then show ?case by simp
next
  case (Cons r rs)
  have p: "prefix (fst st) (fst (step h r st))"
    and s: "set (fst (step h r st)) \<subseteq> set (fst st) \<union> {r}"
    using step_trace[of h r st] by auto
  show ?case
    using Cons.IH[of "step h r st"] p s
    by (auto dest: prefix_order.trans)
qed

lemma called_iff:
  assumes d: "distinct rs" and m: "r \<in> set rs"
  shows "r \<in> set (fst (foldl (\<lambda>st q. step h q st) ([], Inr (w, c0)) rs))
         \<longleftrightarrow> trigger r c0
             \<and> \<not> isl (snd (foldl (\<lambda>st q. step h q st) ([], Inr (w, c0))
                              (takeWhile (\<lambda>q. q \<noteq> r) rs)))"
proof -
  let ?F = "\<lambda>st q. step h q st"
  let ?pre = "takeWhile (\<lambda>q. q \<noteq> r) rs"
  obtain pre post where rs0: "rs = pre @ r # post" and npre0: "r \<notin> set pre"
    using split_list_first[OF m] by blast
  have tw: "?pre = pre"
    by (subst rs0, subst takeWhile_append2) (use npre0 in auto)
  have rs: "rs = ?pre @ r # post" using rs0 tw by simp
  have npre: "r \<notin> set ?pre" using npre0 tw by simp
  have npost: "r \<notin> set post" using d rs by (metis distinct.simps(2) distinct_append)
  obtain tr1 res1 where st1: "foldl ?F ([], Inr (w, c0)) ?pre = (tr1, res1)"
    by (cases "foldl ?F ([], Inr (w, c0)) ?pre") auto
  note inv = steps_invariant[OF st1]
  have ntr1: "r \<notin> set tr1"
    using inv npre set_mono_prefix by fastforce
  have all: "foldl ?F ([], Inr (w, c0)) rs = foldl ?F (step h r (tr1, res1)) post"
    by (subst rs) (simp add: st1)
  show ?thesis
  proof (cases res1)
    case (Inl x)
    then show ?thesis using all st1 ntr1 by (simp add: foldl_step_Inl)
  next
    case (Inr wc)
    obtain w1 c1 where wc: "wc = (w1, c1)" by (cases wc) auto
    have trg: "trigger r c1 = trigger r c0"
      using inv Inr wc sameTag_trigger by blast
    show ?thesis
    proof (cases "trigger r c0")
      case True
      then have "fst (step h r (tr1, res1)) = tr1 @ [r]" using Inr wc trg by simp
      then have "r \<in> set (fst (foldl ?F (step h r (tr1, res1)) post))"
        using foldl_step_trace[of "step h r (tr1, res1)" h post] set_mono_prefix by fastforce
      then show ?thesis using all st1 Inr True by simp
    next
      case False
      then have "step h r (tr1, res1) = (tr1, res1)" using Inr wc trg by simp
      then have "set (fst (foldl ?F (step h r (tr1, res1)) post)) \<subseteq> set tr1 \<union> set post"
        using foldl_step_trace[of "(tr1, res1)" h post] by simp
      then show ?thesis using all ntr1 npost False by auto
    qed
  qed
qed

lemma called_tryBlock:
  "r \<in> set (fst (tryBlock h w child))
     \<longleftrightarrow> trigger r child \<and> \<not> isl (snd (stateBefore h w child r))"
proof -
  have "distinct resolverOrder" by (simp add: resolverOrder_def)
  moreover have "r \<in> set resolverOrder" by (cases r) (simp_all add: resolverOrder_def)
  ultimately show ?thesis
    using called_iff[of resolverOrder r h w child]
    by (simp add: tryBlock_foldl stateBefore_def)
qed

text \<open>
  C10, as amended. On an element whose \<open>loop\<close>, \<open>data\<close>, \<open>if\<close>, \<open>styling\<close> or \<open>text\<close>
  attribute is present with an empty value, that resolver is never called: its
  statement leaves the state of the \<open>try\<close> block, and with it the element, as it is.
  On an element whose \<open>code\<close> or \<open>inside\<close> attribute is present with an empty value,
  that resolver is called as soon as its statement is reached, and the statement is
  reached exactly when no earlier resolver of the element has thrown.
\<close>

theorem empty_attribute_dispatch:
  "(r \<in> {RLoop, RData, RIf, RStyling, RText} \<and> triggerAttribute r = Some n
      \<and> getAttribute child n = Some [] \<longrightarrow>
        r \<notin> set (fst (tryBlock h w child))
        \<and> step h r (tr, Inr (w', child)) = (tr, Inr (w', child)))
   \<and> (r \<in> {RCode, RInside} \<and> triggerAttribute r = Some n
      \<and> getAttribute child n = Some [] \<longrightarrow>
        (r \<in> set (fst (tryBlock h w child)) \<longleftrightarrow> \<not> isl (snd (stateBefore h w child r)))
        \<and> step h r (tr, Inr (w', child))
            = (tr @ [r], case run h r w' child of
                           Inl (err, w'') \<Rightarrow> Inl (err, w'', child)
                         | Inr wc \<Rightarrow> Inr wc))"
proof -
  have a: "r \<in> {RLoop, RData, RIf, RStyling, RText} \<Longrightarrow> triggerAttribute r = Some n
      \<Longrightarrow> getAttribute child n = Some [] \<Longrightarrow> \<not> trigger r child"
    by (cases r) (auto simp: attrTruthy_def)
  have b: "r \<in> {RCode, RInside} \<Longrightarrow> triggerAttribute r = Some n
      \<Longrightarrow> getAttribute child n = Some [] \<Longrightarrow> trigger r child"
    by (cases r) auto
  show ?thesis
    using a b called_tryBlock[of r h w child] by auto
qed

text \<open>On the example host, an element with empty \<open>code\<close> and \<open>text\<close> attributes has
  its content \<open>1+2\<close> evaluated by the inline-code resolver and the literal-text resolver
  skipped.\<close>

theorem empty_attribute_dispatch_witness:
  "getAttribute (Element ''p'' [(''code'', []), (''text'', [])] [] [TextNode ''1+2'']) ''text'' = Some []
   \<and> RText \<notin> set (fst (tryBlock demoHost emptyWorld
                          (Element ''p'' [(''code'', []), (''text'', [])] [] [TextNode ''1+2''])))
   \<and> getAttribute (Element ''p'' [(''code'', []), (''text'', [])] [] [TextNode ''1+2'']) ''code'' = Some []
   \<and> RCode \<in> set (fst (tryBlock demoHost emptyWorld
                          (Element ''p'' [(''code'', []), (''text'', [])] [] [TextNode ''1+2''])))
   \<and> snd (tryBlock demoHost emptyWorld
            (Element ''p'' [(''code'', []), (''text'', [])] [] [TextNode ''1+2'']))
      = Inr (emptyWorld, Element ''p'' [(''code'', []), (''text'', [])] [] [TextNode ''3''])"
proof -
  let ?c = "Element ''p'' [(''code'', []), (''text'', [])] [] [TextNode ''1+2'']"
  have reach: "\<not> isl (snd (stateBefore demoHost emptyWorld ?c RCode))" by code_simp
  have res: "snd (tryBlock demoHost emptyWorld ?c)
      = Inr (emptyWorld, Element ''p'' [(''code'', []), (''text'', [])] [] [TextNode ''3''])"
    by code_simp
  have t: "RText \<notin> set (fst (tryBlock demoHost emptyWorld ?c))"
    using empty_attribute_dispatch[of RText "''text''" ?c demoHost emptyWorld] by simp
  have c: "RCode \<in> set (fst (tryBlock demoHost emptyWorld ?c))"
    using empty_attribute_dispatch[of RCode "''code''" ?c demoHost emptyWorld] reach by simp
  show ?thesis using t c res by simp
qed

text \<open>The claim as stated fails when an earlier resolver throws: with empty \<open>code\<close>
  and \<open>inside\<close> attributes the inline-code resolver evaluates the content
  \<open>_(1+2)_hello\<close>, which throws, and expression substitution does not run although its
  attribute is present with an empty value.\<close>

theorem inside_not_run_after_throw:
  "getAttribute (Element ''p'' [(''code'', []), (''inside'', [])] [] [TextNode ''_(1+2)_hello''])
     ''inside'' = Some []
   \<and> fst (tryBlock demoHost emptyWorld
            (Element ''p'' [(''code'', []), (''inside'', [])] [] [TextNode ''_(1+2)_hello'']))
      = [RCode]
   \<and> RInside \<notin> set (fst (tryBlock demoHost emptyWorld
            (Element ''p'' [(''code'', []), (''inside'', [])] [] [TextNode ''_(1+2)_hello''])))"
  by code_simp

section \<open>Failures of resolvers\<close>

lemma walkChildren_append:
  "walkChildren h n w (xs @ ys) =
     (case walkChildren h n w xs of
        None \<Rightarrow> None
      | Some (Inl ew) \<Rightarrow> Some (Inl ew)
      | Some (Inr (w1, xs')) \<Rightarrow>
          (case walkChildren h n w1 ys of
             None \<Rightarrow> None
           | Some (Inl ew) \<Rightarrow> Some (Inl ew)
           | Some (Inr (w2, ys')) \<Rightarrow> Some (Inr (w2, xs' @ ys'))))"
  by (induction xs arbitrary: w) (auto split: option.splits sum.splits)

lemma tryBlock_thrown_sameTag:
  "snd (tryBlock h w child) = Inl (err, w', child') \<Longrightarrow> sameTag child child'"
proof -
  assume a: "snd (tryBlock h w child) = Inl (err, w', child')"
  obtain tr res where st: "tryBlock h w child = (tr, res)" by (cases "tryBlock h w child") auto
  with a have "res = Inl (err, w', child')" by simp
  then show ?thesis using steps_invariant[OF st[unfolded tryBlock_foldl]] by blast
qed

lemma banner_parts: "banner message = bannerOpen @ message @ ''</div>''"
  by (simp add: banner_def bannerOpen_def)

lemma tryBlock_plain_div:
  "tryBlock h w (Element ''div'' [(''style'', sty)] st ks)
     = ([], Inr (w, Element ''div'' [(''style'', sty)] st ks))"
  by (simp add: tryBlock_def attrTruthy_def)

lemma walkChildren_banner_div:
  "walkChildren h (Suc m) w [Element ''div'' [(''style'', sty)] st ks] =
     (case walkChildren h m w ks of
        None \<Rightarrow> None
      | Some (Inl ew) \<Rightarrow> Some (Inl ew)
      | Some (Inr (w2, ks')) \<Rightarrow> Some (Inr (w2, [Element ''div'' [(''style'', sty)] st ks'])))"
  by (simp add: tryCatch_def tryBlock_plain_div split: option.splits sum.splits)

lemma htmlLogic_banner_div:
  "htmlLogic h (Suc (Suc n)) w (Element t a s [Element ''div'' [(''style'', sty)] st [TextNode x]])
     = Some (Inr (w, Element t a s [Element ''div'' [(''style'', sty)] st [TextNode x]]))"
  by (simp add: tryCatch_def tryBlock_plain_div)

text \<open>
  C1, as amended. Let the \<open>try\<close> block throw on a child, after the earlier siblings
  have been walked, and let the thrown value have a message for the handler to read:
  it is an error object, or any value other than \<open>null\<close> and \<open>undefined\<close>. Then the error
  does not leave the walker: the handler gives the child, which still has its tag name
  and attributes, the error banner around the message text as its content. The walk
  of the children then goes into the child with its banner and on to the remaining
  siblings, which reach the walk as they were, and the results of the earlier siblings
  stay as they were. Going into the child is walking the children that the banner
  parses to; when that is the \<open>div\<close> of the banner, the walk goes through it into what
  the message parses to. When the banner parses to its \<open>div\<close> around a text, walking
  into the child returns and leaves the banner and the global state as they are.
\<close>

theorem walker_catches_failure:
  assumes el: "isElement child"
    and th: "snd (tryBlock h w child) = Inl (err, w', child')"
    and msg: "errMessage err = Inr message"
    and pre: "walkChildren h n w0 before = Some (Inr (w, before'))"
  shows "sameTag child child'
       \<and> err \<noteq> ThrownValue JNull \<and> err \<noteq> ThrownValue JUndefined
       \<and> message = (case err of Thrown m \<Rightarrow> m | ThrownValue v \<Rightarrow> toStr (getProp v ''message''))
       \<and> (\<forall>e. (\<exists>m. errMessage e = Inr m)
                \<longleftrightarrow> e \<noteq> ThrownValue JNull \<and> e \<noteq> ThrownValue JUndefined)
       \<and> tryCatch h w child = Inr (w', setInnerHTML h child' (banner message))
       \<and> childNodes (setInnerHTML h child' (banner message))
           = parseHtml h (bannerOpen @ message @ ''</div>'')
       \<and> walkChildren h n w0 (before @ child # rest) =
           (case htmlLogic h n w' (setInnerHTML h child' (banner message)) of
              None \<Rightarrow> None
            | Some (Inl ew) \<Rightarrow> Some (Inl ew)
            | Some (Inr (w2, child2)) \<Rightarrow>
                (case walkChildren h n w2 rest of
                   None \<Rightarrow> None
                 | Some (Inl ew) \<Rightarrow> Some (Inl ew)
                 | Some (Inr (w3, rest')) \<Rightarrow> Some (Inr (w3, before' @ child2 # rest'))))
       \<and> htmlLogic h (Suc m) w' (setInnerHTML h child' (banner message)) =
           (case walkChildren h m w' (parseHtml h (banner message)) of
              None \<Rightarrow> None
            | Some (Inl ew) \<Rightarrow> Some (Inl ew)
            | Some (Inr (w2, ks')) \<Rightarrow> Some (Inr (w2, setChildNodes child' ks')))
       \<and> (parseHtml h (banner message) = [Element ''div'' [(''style'', sty)] st ks] \<longrightarrow>
            walkChildren h (Suc m) w' (parseHtml h (banner message)) =
              (case walkChildren h m w' ks of
                 None \<Rightarrow> None
               | Some (Inl ew) \<Rightarrow> Some (Inl ew)
               | Some (Inr (w2, ks')) \<Rightarrow>
                   Some (Inr (w2, [Element ''div'' [(''style'', sty)] st ks']))))
       \<and> (parseHtml h (banner message) = [Element ''div'' [(''style'', sty)] st [TextNode x]] \<longrightarrow>
            htmlLogic h (Suc (Suc m)) w' (setInnerHTML h child' (banner message))
              = Some (Inr (w', setInnerHTML h child' (banner message))))"
proof -
  have same: "sameTag child child'" using tryBlock_thrown_sameTag[OF th] .
  then obtain t a s ks0 where c': "child' = Element t a s ks0"
    using el by (cases child') (auto simp: sameTag_def)
  have tc: "tryCatch h w child = Inr (w', setInnerHTML h child' (banner message))"
    using th msg by (simp add: tryCatch_def)
  have kids: "childNodes (setInnerHTML h child' (banner message))
              = parseHtml h (bannerOpen @ message @ ''</div>'')"
    by (simp add: c' banner_parts)
  have one: "walkChildren h n w (child # rest) =
           (case htmlLogic h n w' (setInnerHTML h child' (banner message)) of
              None \<Rightarrow> None
            | Some (Inl ew) \<Rightarrow> Some (Inl ew)
            | Some (Inr (w2, child2)) \<Rightarrow>
                (case walkChildren h n w2 rest of
                   None \<Rightarrow> None
                 | Some (Inl ew) \<Rightarrow> Some (Inl ew)
                 | Some (Inr (w3, rest')) \<Rightarrow> Some (Inr (w3, child2 # rest'))))"
    using el by (simp add: tc)
  have walk: "walkChildren h n w0 (before @ child # rest) =
           (case htmlLogic h n w' (setInnerHTML h child' (banner message)) of
              None \<Rightarrow> None
            | Some (Inl ew) \<Rightarrow> Some (Inl ew)
            | Some (Inr (w2, child2)) \<Rightarrow>
                (case walkChildren h n w2 rest of
                   None \<Rightarrow> None
                 | Some (Inl ew) \<Rightarrow> Some (Inl ew)
                 | Some (Inr (w3, rest')) \<Rightarrow> Some (Inr (w3, before' @ child2 # rest'))))"
  proof -
    have "walkChildren h n w0 (before @ child # rest) =
            (case walkChildren h n w (child # rest) of
               None \<Rightarrow> None
             | Some (Inl ew) \<Rightarrow> Some (Inl ew)
             | Some (Inr (w2, ys')) \<Rightarrow> Some (Inr (w2, before' @ ys')))"
      by (simp only: walkChildren_append[of h n w0 before "child # rest"] pre
            option.case sum.case prod.case)
    then show ?thesis
      unfolding one
      by (simp split: option.splits sum.splits del: walkChildren.simps htmlLogic.simps)
  qed
  have rec: "htmlLogic h (Suc m) w' (setInnerHTML h child' (banner message)) =
           (case walkChildren h m w' (parseHtml h (banner message)) of
              None \<Rightarrow> None
            | Some (Inl ew) \<Rightarrow> Some (Inl ew)
            | Some (Inr (w2, ks')) \<Rightarrow> Some (Inr (w2, setChildNodes child' ks')))"
    by (simp add: c' split: option.splits sum.splits)
  have dv: "parseHtml h (banner message) = [Element ''div'' [(''style'', sty)] st ks] \<longrightarrow>
            walkChildren h (Suc m) w' (parseHtml h (banner message)) =
              (case walkChildren h m w' ks of
                 None \<Rightarrow> None
               | Some (Inl ew) \<Rightarrow> Some (Inl ew)
               | Some (Inr (w2, ks')) \<Rightarrow>
                   Some (Inr (w2, [Element ''div'' [(''style'', sty)] st ks'])))"
    using walkChildren_banner_div[of h m w' sty st ks] by simp
  have ban: "parseHtml h (banner message) = [Element ''div'' [(''style'', sty)] st [TextNode x]] \<longrightarrow>
            htmlLogic h (Suc (Suc m)) w' (setInnerHTML h child' (banner message))
              = Some (Inr (w', setInnerHTML h child' (banner message)))"
    using htmlLogic_banner_div[of h m w' t a s sty st x] by (simp add: c')
  have nn: "err \<noteq> ThrownValue JNull \<and> err \<noteq> ThrownValue JUndefined"
    using msg by auto
  have ms: "message = (case err of Thrown m \<Rightarrow> m | ThrownValue v \<Rightarrow> toStr (getProp v ''message''))"
    using msg by (cases err) (auto split: if_splits)
  have ex: "\<forall>e. (\<exists>m. errMessage e = Inr m)
                \<longleftrightarrow> e \<noteq> ThrownValue JNull \<and> e \<noteq> ThrownValue JUndefined"
  proof
    fix e
    show "(\<exists>m. errMessage e = Inr m)
            \<longleftrightarrow> e \<noteq> ThrownValue JNull \<and> e \<noteq> ThrownValue JUndefined"
      by (cases e) auto
  qed
  show ?thesis using same nn ms ex tc kids walk rec dv ban by blast
qed

text \<open>On the example host, the second of three siblings throws an error whose
  message is the markup of an element with a \<open>code\<close> attribute: the sibling gets the
  banner with the message, the walk into the banner resolves the element of the
  message, and both neighbours are resolved.\<close>

theorem walker_catches_failure_witness:
  "walkChildren walkHost (Suc (Suc (Suc 0))) emptyWorld
     [Element ''p'' [(''code'', ''1+2'')] [] [TextNode ''a''],
      Element ''p'' [(''code'', ''boom()'')] [] [TextNode ''b''],
      Element ''p'' [(''code'', ''1+2'')] [] [TextNode ''c'']]
   = Some (Inr (emptyWorld,
        [Element ''p'' [(''code'', ''1+2'')] [] [TextNode ''3''],
         Element ''p'' [(''code'', ''boom()'')] []
           [Element ''div'' [(''style'', bannerStyle)] []
              [Element ''b'' [(''code'', ''1+2'')] [] [TextNode ''3'']]],
         Element ''p'' [(''code'', ''1+2'')] [] [TextNode ''3'']]))"
proof -
  let ?p1 = "Element ''p'' [(''code'', ''1+2'')] [] [TextNode ''a'']"
  let ?bad = "Element ''p'' [(''code'', ''boom()'')] [] [TextNode ''b'']"
  let ?p3 = "Element ''p'' [(''code'', ''1+2'')] [] [TextNode ''c'']"
  let ?three = "Element ''p'' [(''code'', ''1+2'')] [] [TextNode ''3'']"
  let ?msg = "demoSerialize [codeB]"
  let ?b3 = "Element ''b'' [(''code'', ''1+2'')] [] [TextNode ''3'']"
  let ?n = "Suc (Suc (Suc 0))"
  have el: "isElement ?bad" by simp
  have th: "snd (tryBlock walkHost emptyWorld ?bad) = Inl (Thrown ?msg, emptyWorld, ?bad)"
    by code_simp
  have msg: "errMessage (Thrown ?msg) = Inr ?msg" by simp
  have pre: "walkChildren walkHost ?n emptyWorld [?p1] = Some (Inr (emptyWorld, [?three]))"
    by code_simp
  have parse: "parseHtml walkHost (banner ?msg) = [Element ''div'' [(''style'', bannerStyle)] [] [codeB]]"
    by code_simp
  have kids: "walkChildren walkHost (Suc 0) emptyWorld [codeB] = Some (Inr (emptyWorld, [?b3]))"
    by code_simp
  have rest: "walkChildren walkHost ?n emptyWorld [?p3] = Some (Inr (emptyWorld, [?three]))"
    by code_simp
  note Ta = walker_catches_failure[OF el th msg pre, where rest = "[?p3]" and m = "Suc (Suc 0)"]
  note Tb = walker_catches_failure[OF el th msg pre, where m = "Suc 0" and sty = bannerStyle
      and st = "[]" and ks = "[codeB]"]
  have div: "walkChildren walkHost (Suc (Suc 0)) emptyWorld (parseHtml walkHost (banner ?msg))
             = Some (Inr (emptyWorld, [Element ''div'' [(''style'', bannerStyle)] [] [?b3]]))"
    using Tb[THEN conjunct2, THEN conjunct2, THEN conjunct2, THEN conjunct2, THEN conjunct2,
             THEN conjunct2, THEN conjunct2, THEN conjunct2, THEN conjunct2, THEN conjunct1] parse
    by (simp only: kids option.case sum.case prod.case simp_thms)
  have inner: "htmlLogic walkHost ?n emptyWorld (setInnerHTML walkHost ?bad (banner ?msg))
               = Some (Inr (emptyWorld, setChildNodes ?bad [Element ''div'' [(''style'', bannerStyle)] [] [?b3]]))"
    using Ta[THEN conjunct2, THEN conjunct2, THEN conjunct2, THEN conjunct2, THEN conjunct2,
             THEN conjunct2, THEN conjunct2, THEN conjunct2, THEN conjunct1]
    by (simp only: div option.case sum.case prod.case)
  have "walkChildren walkHost ?n emptyWorld ([?p1] @ ?bad # [?p3])
        = Some (Inr (emptyWorld, [?three]
             @ setChildNodes ?bad [Element ''div'' [(''style'', bannerStyle)] [] [?b3]] # [?three]))"
    using Ta[THEN conjunct2, THEN conjunct2, THEN conjunct2, THEN conjunct2, THEN conjunct2,
             THEN conjunct2, THEN conjunct2, THEN conjunct1]
    by (simp only: inner rest option.case sum.case prod.case)
  then show ?thesis by simp
qed

text \<open>The claim as stated fails on a resolver that throws \<open>null\<close>: the handler throws
  when it reads the message, and the walk of the three siblings ends with that
  error.\<close>

theorem walker_aborts_on_thrown_null:
  "snd (tryBlock walkHost emptyWorld (Element ''p'' [(''code'', ''throw null'')] [] [TextNode ''b'']))
     = Inl (ThrownValue JNull, emptyWorld,
            Element ''p'' [(''code'', ''throw null'')] [] [TextNode ''b''])
   \<and> walkChildren walkHost (Suc (Suc (Suc 0))) emptyWorld
     [Element ''p'' [(''code'', ''1+2'')] [] [TextNode ''a''],
      Element ''p'' [(''code'', ''throw null'')] [] [TextNode ''b''],
      Element ''p'' [(''code'', ''1+2'')] [] [TextNode ''c'']]
   = Some (Inl (Thrown ''Cannot read properties of null (reading 'message')'', emptyWorld))"
  by code_simp

section \<open>Template instantiation: the lookup\<close>

lemma expandTemps_filter:
  "expandTemps h n temps w e
     = expandTemps h n (filter (\<lambda>t. getAttribute t ''name'' = Some n) temps) w e"
  by (induction temps arbitrary: w e) (auto split: option.splits sum.splits)

lemma expandTemps_append:
  "expandTemps h n (ms @ ts) w e =
     (case expandTemps h n ms w e of
        Inl ew \<Rightarrow> Inl ew
      | Inr (w2, e2) \<Rightarrow> expandTemps h n ts w2 e2)"
  by (induction ms arbitrary: w e) (auto split: option.splits sum.splits)

lemma expandTemps_one:
  assumes "getAttribute t ''name'' = Some n"
    and "elementFromHtml h (outerHTML h t) = Some clone0"
    and "projectAll (attributesOf e) clone0 = Inr clone"
  shows "expandTemps h n [t] w e =
           dataAtr h w (setInnerHTML h e
                          (replaceAll ''_children_'' (innerHTML h e) (innerHTML h clone)))"
  using assms by (auto split: sum.splits)

text \<open>
  C7, as amended. Template instantiation takes the name from the tag without its
  last character, chooses the snapshot list by the \<open>from\<close> attribute, and goes over the
  list in order. Only the snapshots whose \<open>name\<close> attribute equals the requested name
  take part; when there is none the element and the state stay as they are. Every
  matching snapshot is expanded, the later one onto the element that the earlier ones
  left: the expansion of one matching snapshot sets the content of the element to the
  content of the projected clone in which \<open>replaceAll\<close> has put the current content of
  the element for \<open>_children_\<close>, and then runs data binding on the element. When the
  current content has no dollar sign, every \<open>_children_\<close> is replaced by the current
  content as it is.
\<close>

theorem getTemp_lookup:
  "getTemp h w ele =
     expandTemps h (butlast (localName ele))
       (if getAttribute ele ''from'' = Some ''handy-ui''
        then getTempsElementsUI w else getTempsElements w)
       (setGlobal ''tempName'' (JStr (butlast (localName ele))) w) ele
   \<and> expandTemps h n temps w1 e
       = expandTemps h n (filter (\<lambda>t. getAttribute t ''name'' = Some n) temps) w1 e
   \<and> (filter (\<lambda>t. getAttribute t ''name'' = Some n) temps = [] \<longrightarrow>
        expandTemps h n temps w1 e = Inr (w1, e))
   \<and> expandTemps h n (ms @ [t]) w1 e =
       (case expandTemps h n ms w1 e of
          Inl ew \<Rightarrow> Inl ew
        | Inr (w2, e2) \<Rightarrow> expandTemps h n [t] w2 e2)
   \<and> (getAttribute t ''name'' = Some n \<and> elementFromHtml h (outerHTML h t) = Some clone0
        \<and> projectAll (attributesOf e2) clone0 = Inr clone \<longrightarrow>
        expandTemps h n [t] w2 e2 =
          dataAtr h w2 (setInnerHTML h e2
                          (replaceAll ''_children_'' (innerHTML h e2) (innerHTML h clone))))
   \<and> (getAttribute t ''name'' = Some n \<and> elementFromHtml h (outerHTML h t) = Some clone0
        \<and> projectAll (attributesOf e2) clone0 = Inr clone
        \<and> CHR ''$'' \<notin> set (innerHTML h e2) \<longrightarrow>
        expandTemps h n [t] w2 e2 =
          dataAtr h w2 (setInnerHTML h e2
                          (substAll ''_children_'' (innerHTML h e2) (innerHTML h clone))))"
proof -
  have g: "getTemp h w ele =
     expandTemps h (butlast (localName ele))
       (if getAttribute ele ''from'' = Some ''handy-ui''
        then getTempsElementsUI w else getTempsElements w)
       (setGlobal ''tempName'' (JStr (butlast (localName ele))) w) ele"
    by (simp add: getTemp_def Let_def setGlobal_def)
  have none: "filter (\<lambda>t. getAttribute t ''name'' = Some n) temps = [] \<longrightarrow>
        expandTemps h n temps w1 e = Inr (w1, e)"
    using expandTemps_filter[of h n temps w1 e] by simp
  have plain: "getAttribute t ''name'' = Some n \<and> elementFromHtml h (outerHTML h t) = Some clone0
        \<and> projectAll (attributesOf e2) clone0 = Inr clone
        \<and> CHR ''$'' \<notin> set (innerHTML h e2) \<longrightarrow>
        expandTemps h n [t] w2 e2 =
          dataAtr h w2 (setInnerHTML h e2
                          (substAll ''_children_'' (innerHTML h e2) (innerHTML h clone)))"
    using expandTemps_one[of t n h clone0 e2 clone w2]
      replaceAll_substAll[of "innerHTML h e2" "''_children_''" "innerHTML h clone"]
    by metis
  show ?thesis
    using g expandTemps_filter[of h n temps w1 e] none expandTemps_append[of h n ms "[t]" w1 e]
      expandTemps_one[of t n h clone0 e2 clone w2] plain
    by blast
qed

text \<open>On the example host, with the registry holding a \<open>note\<close> and a \<open>card\<close> snapshot,
  the element \<open>card.\<close> gets the content of the \<open>card\<close> snapshot; with only the \<open>note\<close>
  snapshot in the registry it stays as it was.\<close>

theorem getTemp_lookup_witness:
  "getTemp tempHost (registry [noteT, cardA]) (Element ''card.'' [] [] [])
     = Inr (setGlobal ''tempName'' (JStr ''card'') (registry [noteT, cardA]),
            Element ''card.'' [] [] [TextNode ''A''])
   \<and> getTemp tempHost (registry [noteT]) (Element ''card.'' [] [] [TextNode ''x''])
     = Inr (setGlobal ''tempName'' (JStr ''card'') (registry [noteT]),
            Element ''card.'' [] [] [TextNode ''x''])
   \<and> CHR ''$'' \<notin> set (innerHTML tempHost (Element ''card.'' [] [] []))
   \<and> expandTemps tempHost ''card'' [cardA]
        (setGlobal ''tempName'' (JStr ''card'') (registry [noteT, cardA]))
        (Element ''card.'' [] [] [])
     = dataAtr tempHost (setGlobal ''tempName'' (JStr ''card'') (registry [noteT, cardA]))
         (setInnerHTML tempHost (Element ''card.'' [] [] [])
            (substAll ''_children_'' [] ''A''))"
proof -
  let ?e = "Element ''card.'' [] [] []"
  let ?x = "Element ''card.'' [] [] [TextNode ''x'']"
  let ?w1 = "setGlobal ''tempName'' (JStr ''card'') (registry [noteT, cardA])"
  let ?u1 = "setGlobal ''tempName'' (JStr ''card'') (registry [noteT])"
  note T = getTemp_lookup[where h = tempHost and w = "registry [noteT, cardA]" and ele = ?e
      and n = "''card''" and temps = "[noteT, cardA]" and ?w1.0 = ?w1 and e = ?e
      and ms = "[]" and t = cardA and clone0 = cardA and ?e2.0 = ?e and clone = cardA
      and ?w2.0 = ?w1]
  note U = getTemp_lookup[where h = tempHost and w = "registry [noteT]" and ele = ?x
      and n = "''card''" and temps = "[noteT]" and ?w1.0 = ?u1 and e = ?x]
  have bl: "butlast (localName ?e) = ''card''" "butlast (localName ?x) = ''card''"
    by simp_all
  have fr: "(getAttribute ?e ''from'' = Some ''handy-ui'') = False"
           "(getAttribute ?x ''from'' = Some ''handy-ui'') = False"
    by simp_all
  have reg: "getTempsElements (registry [noteT, cardA]) = [noteT, cardA]"
            "getTempsElements (registry [noteT]) = [noteT]"
    by (simp_all add: registry_def)
  have f: "filter (\<lambda>t. getAttribute t ''name'' = Some ''card'') [noteT, cardA] = [cardA]"
          "filter (\<lambda>t. getAttribute t ''name'' = Some ''card'') [noteT] = []"
    by (simp_all add: noteT_def cardA_def)
  have hyp: "getAttribute cardA ''name'' = Some ''card''
             \<and> elementFromHtml tempHost (outerHTML tempHost cardA) = Some cardA
             \<and> projectAll (attributesOf ?e) cardA = Inr cardA"
    by code_simp
  have d: "dataAtr tempHost ?w1
             (setInnerHTML tempHost ?e
                (replaceAll ''_children_'' (innerHTML tempHost ?e) (innerHTML tempHost cardA)))
           = Inr (?w1, Element ''card.'' [] [] [TextNode ''A''])"
    by code_simp
  have g1: "getTemp tempHost (registry [noteT, cardA]) ?e
            = expandTemps tempHost ''card'' [noteT, cardA] ?w1 ?e"
    using T[THEN conjunct1] unfolding bl fr if_False reg .
  have g2: "expandTemps tempHost ''card'' [noteT, cardA] ?w1 ?e
            = expandTemps tempHost ''card'' [cardA] ?w1 ?e"
    using T[THEN conjunct2, THEN conjunct1] unfolding f .
  have g3: "expandTemps tempHost ''card'' [cardA] ?w1 ?e
            = dataAtr tempHost ?w1
             (setInnerHTML tempHost ?e
                (replaceAll ''_children_'' (innerHTML tempHost ?e) (innerHTML tempHost cardA)))"
    using T[THEN conjunct2, THEN conjunct2, THEN conjunct2, THEN conjunct2, THEN conjunct1] hyp
    by (rule mp)
  have a: "getTemp tempHost (registry [noteT, cardA]) ?e
           = Inr (?w1, Element ''card.'' [] [] [TextNode ''A''])"
    unfolding g1 g2 g3 d ..
  have h1: "getTemp tempHost (registry [noteT]) ?x = expandTemps tempHost ''card'' [noteT] ?u1 ?x"
    using U[THEN conjunct1] unfolding bl fr if_False reg .
  have h2: "expandTemps tempHost ''card'' [noteT] ?u1 ?x = Inr (?u1, ?x)"
    using U[THEN conjunct2, THEN conjunct2, THEN conjunct1] f(2) by (rule mp)
  have b: "getTemp tempHost (registry [noteT]) ?x = Inr (?u1, ?x)"
    unfolding h1 h2 ..
  have nd: "CHR ''$'' \<notin> set (innerHTML tempHost ?e)"
    by code_simp
  have inn: "innerHTML tempHost ?e = []" "innerHTML tempHost cardA = ''A''"
    by code_simp+
  have g4: "expandTemps tempHost ''card'' [cardA] ?w1 ?e
            = dataAtr tempHost ?w1
             (setInnerHTML tempHost ?e
                (substAll ''_children_'' (innerHTML tempHost ?e) (innerHTML tempHost cardA)))"
    using T[THEN conjunct2, THEN conjunct2, THEN conjunct2, THEN conjunct2, THEN conjunct2]
      hyp nd by blast
  show ?thesis using a b nd g4[unfolded inn] by blast
qed

text \<open>The claim as stated fails on a registry with two snapshots named \<open>card\<close>: both
  are expanded in order, and the content of the element is that of the second one,
  not of the first.\<close>

theorem getTemp_last_match_wins:
  "getAttribute cardA ''name'' = Some ''card''
   \<and> getAttribute cardB ''name'' = Some ''card''
   \<and> getTemp tempHost (registry [cardA, cardB]) (Element ''card.'' [] [] [])
     = Inr (\<lparr>window = [(''tempName'', JStr ''card'')], allDataElements = [],
              getTempsElements = [cardA, cardB], getTempsElementsUI = []\<rparr>,
            Element ''card.'' [] [] [TextNode ''B''])"
  by code_simp

section \<open>Template instantiation: projecting the attributes of the caller\<close>

lemma projectTarget_class:
  assumes "map_of a ''target'' = Some slot"
  shows "projectTarget (slot @ ''.class'') v (Element t a s ks)
         = Element t (AList.update ''class'' (attrText (map_of a ''class'') @ '' '' @ v) a) s ks"
  using assms by (simp add: projectTarget_def)

lemma projectTarget_other:
  assumes "map_of a ''target'' = Some slot" and "name \<noteq> ''class''"
  shows "projectTarget (slot @ ''.'' @ name) v (Element t a s ks)
         = Element t (AList.update name v a) s ks"
  using assms by (simp add: projectTarget_def)

lemma projectTarget_no_match:
  assumes "map_of a ''target'' = Some slot" and "take (length slot + 1) att \<noteq> slot @ ''.''"
  shows "projectTarget att v (Element t a s ks) = Element t a s ks"
  using assms by (simp add: projectTarget_def)

text \<open>
  C8. Take a target of the clone whose \<open>target\<close> attribute is the slot name. For the
  caller attribute \<open>slot.class\<close> and a target that has a \<open>class\<close> attribute, the target
  gets as its \<open>class\<close> the old value, a space and the value of the caller attribute;
  its other attributes stay as they were. For a caller attribute \<open>slot.name\<close> with any
  other name, the attribute \<open>name\<close> of the target is set to the value of the caller
  attribute. A caller attribute that does not begin with the slot name and a dot
  leaves the target as it is. In each case the targets below the target are treated
  in the same way, and the projection of the caller attributes treats every
  descendant of the clone for one attribute after the other.
\<close>

theorem class_projection_appends:
  assumes tg: "map_of a ''target'' = Some slot"
  shows "(map_of a ''class'' = Some c \<longrightarrow>
            projectNode (slot @ ''.class'') v (Element t a s ks)
              = Element t (AList.update ''class'' (c @ '' '' @ v) a) s
                  (map (projectNode (slot @ ''.class'') v) ks)
            \<and> getAttribute (projectNode (slot @ ''.class'') v (Element t a s ks)) ''class''
              = Some (c @ '' '' @ v)
            \<and> (\<forall>n. n \<noteq> ''class'' \<longrightarrow>
                  getAttribute (projectNode (slot @ ''.class'') v (Element t a s ks)) n
                  = map_of a n))
       \<and> (name \<noteq> ''class'' \<and> name \<noteq> [] \<longrightarrow>
            projectNode (slot @ ''.'' @ name) v (Element t a s ks)
              = Element t (AList.update name v a) s
                  (map (projectNode (slot @ ''.'' @ name) v) ks)
            \<and> getAttribute (projectNode (slot @ ''.'' @ name) v (Element t a s ks)) name
              = Some v)
       \<and> (take (length slot + 1) att \<noteq> slot @ ''.'' \<longrightarrow>
            projectNode att v (Element t a s ks)
              = Element t a s (map (projectNode att v) ks))
       \<and> (\<not> projectThrows att clone \<longrightarrow>
            projectAll ((att, v) # atts) clone
              = projectAll atts
                  (setChildNodes clone (map (projectNode att v) (childNodes clone))))"
proof -
  have c1: "map_of a ''class'' = Some c \<longrightarrow>
            projectNode (slot @ ''.class'') v (Element t a s ks)
              = Element t (AList.update ''class'' (c @ '' '' @ v) a) s
                  (map (projectNode (slot @ ''.class'') v) ks)"
    using projectTarget_class[OF tg] by (simp add: attrText_def)
  have c2: "map_of a ''class'' = Some c \<longrightarrow>
            getAttribute (projectNode (slot @ ''.class'') v (Element t a s ks)) ''class''
              = Some (c @ '' '' @ v)"
    using projectTarget_class[OF tg] by (simp add: attrText_def update_conv')
  have c3: "\<forall>n. n \<noteq> ''class'' \<longrightarrow>
                  getAttribute (projectNode (slot @ ''.class'') v (Element t a s ks)) n
                  = map_of a n"
    using projectTarget_class[OF tg] by (simp add: update_conv')
  have c4: "name \<noteq> ''class'' \<and> name \<noteq> [] \<longrightarrow>
            projectNode (slot @ ''.'' @ name) v (Element t a s ks)
              = Element t (AList.update name v a) s
                  (map (projectNode (slot @ ''.'' @ name) v) ks)"
    using projectTarget_other[OF tg] by simp
  have c5: "name \<noteq> ''class'' \<and> name \<noteq> [] \<longrightarrow>
            getAttribute (projectNode (slot @ ''.'' @ name) v (Element t a s ks)) name
              = Some v"
    using projectTarget_other[OF tg] by (simp add: update_conv')
  have c6: "take (length slot + 1) att \<noteq> slot @ ''.'' \<longrightarrow>
            projectNode att v (Element t a s ks)
              = Element t a s (map (projectNode att v) ks)"
    using projectTarget_no_match[OF tg] by simp
  have c7: "\<not> projectThrows att clone \<longrightarrow>
            projectAll ((att, v) # atts) clone
              = projectAll atts
                  (setChildNodes clone (map (projectNode att v) (childNodes clone)))"
    by simp
  show ?thesis using c1 c2 c3 c4 c5 c6 c7 by blast
qed

text \<open>On the example host: the \<open>title\<close> target with class \<open>head\<close> receiving
  \<open>title.class="big"\<close> ends with the class \<open>head big\<close>, \<open>title.id\<close> sets \<open>id\<close>, an attribute
  of another slot changes nothing, and the template \<open>card\<close> instantiated with
  \<open>title.class="big"\<close> puts the target with class \<open>head big\<close> into the element.\<close>

theorem class_projection_appends_witness:
  "map_of [(''target'', ''title''), (''class'', ''head'')] ''target'' = Some ''title''
   \<and> projectNode ''title.class'' ''big''
        (Element ''h1'' [(''target'', ''title''), (''class'', ''head'')] [] [TextNode ''_children_''])
      = Element ''h1'' [(''target'', ''title''), (''class'', ''head big'')] []
          [TextNode ''_children_'']
   \<and> projectNode ''title.id'' ''big''
        (Element ''h1'' [(''target'', ''title''), (''class'', ''head'')] [] [TextNode ''_children_''])
      = Element ''h1'' [(''target'', ''title''), (''class'', ''head''), (''id'', ''big'')] []
          [TextNode ''_children_'']
   \<and> projectNode ''body.class'' ''big''
        (Element ''h1'' [(''target'', ''title''), (''class'', ''head'')] [] [TextNode ''_children_''])
      = Element ''h1'' [(''target'', ''title''), (''class'', ''head'')] [] [TextNode ''_children_'']
   \<and> projectAll [(''title.class'', ''big'')] cardTitle
      = Inr (Element ''temp.create'' [(''name'', ''card'')] []
          [Element ''h1'' [(''target'', ''title''), (''class'', ''head big'')] []
             [TextNode ''_children_'']])
   \<and> getTemp tempHost (registry [cardTitle])
        (Element ''card.'' [(''title.class'', ''big'')] [] [TextNode ''Hi''])
      = Inr (setGlobal ''tempName'' (JStr ''card'') (registry [cardTitle]),
             Element ''card.'' [(''title.class'', ''big'')] []
               [Element ''h1'' [(''target'', ''title''), (''class'', ''head big'')] []
                  [TextNode ''Hi'']])"
proof -
  let ?a = "[(''target'', ''title''), (''class'', ''head'')]"
  have tg: "map_of ?a ''target'' = Some ''title''" by simp
  have cl: "map_of ?a ''class'' = Some ''head''" by simp
  note T = class_projection_appends[OF tg, where c = "''head''" and v = "''big''"
      and t = "''h1''" and s = "[]" and ks = "[TextNode ''_children_'']"
      and name = "''id''" and att = "''title.class''" and clone = cardTitle and atts = "[]"]
  note U = class_projection_appends[OF tg, where v = "''big''"
      and t = "''h1''" and s = "[]" and ks = "[TextNode ''_children_'']"
      and att = "''body.class''"]
  have nt: "\<not> projectThrows ''title.class'' cardTitle" by code_simp
  have p1: "projectNode ''title.class'' ''big'' (Element ''h1'' ?a [] [TextNode ''_children_''])
      = Element ''h1'' [(''target'', ''title''), (''class'', ''head big'')] []
          [TextNode ''_children_'']"
    using T[THEN conjunct1] cl by simp
  have p2: "projectNode ''title.id'' ''big'' (Element ''h1'' ?a [] [TextNode ''_children_''])
      = Element ''h1'' [(''target'', ''title''), (''class'', ''head''), (''id'', ''big'')] []
          [TextNode ''_children_'']"
    using T[THEN conjunct2, THEN conjunct1] by simp
  have p3: "projectNode ''body.class'' ''big'' (Element ''h1'' ?a [] [TextNode ''_children_''])
      = Element ''h1'' ?a [] [TextNode ''_children_'']"
    using U[THEN conjunct2, THEN conjunct2, THEN conjunct1] by simp
  have p4: "projectAll [(''title.class'', ''big'')] cardTitle
      = Inr (Element ''temp.create'' [(''name'', ''card'')] []
          [Element ''h1'' [(''target'', ''title''), (''class'', ''head big'')] []
             [TextNode ''_children_'']])"
    using T[THEN conjunct2, THEN conjunct2, THEN conjunct2] nt p1
    by (simp add: cardTitle_def del: projectNode.simps projectAll.simps(2))
  have p5: "getTemp tempHost (registry [cardTitle])
        (Element ''card.'' [(''title.class'', ''big'')] [] [TextNode ''Hi''])
      = Inr (setGlobal ''tempName'' (JStr ''card'') (registry [cardTitle]),
             Element ''card.'' [(''title.class'', ''big'')] []
               [Element ''h1'' [(''target'', ''title''), (''class'', ''head big'')] []
                  [TextNode ''Hi'']])"
    by code_simp
  show ?thesis using tg p1 p2 p3 p4 p5 by blast
qed

section \<open>The mutator keeps the object, the attribute and the content together\<close>

















end
